theory Spec2Isabelle
  imports Complex_Main
begin

section \<open>Data model\<close>

text \<open>
  The repository holds three variants of one script.  \<^verbatim>\<open>fetch-issue-titles.js\<close> is the
  function-based variant; the two class-based variants differ in their output: one writes
  the titles to a file, the other prints them with \<^verbatim>\<open>console.log\<close>.  The fetchers of all
  three are embedded here, with the names of the source.

  A record of the provider is \<^verbatim>\<open>{number, title}\<close>.  Numbers are JavaScript numbers holding
  integers; they are modelled as \<open>int\<close>.
\<close>

record item =
  number :: int
  title :: string

text \<open>The fields of the class \<^verbatim>\<open>GitHubFetcher\<close>; the module-level constants of the
  function-based variant hold the same three values.\<close>

record GitHubFetcher =
  owner :: string
  repo :: string
  authKey :: string

text \<open>What a rejected promise carries, as the text that the console prints for it.\<close>

type_synonym cause = string

datatype js_error =
    TypeError
  | RequestError cause
  | FsError string

text \<open>The object built by the count query, with its three keys in creation order.\<close>

record repo_stats =
  issues :: int
  pullRequests :: int
  discussions :: int

text \<open>
  A settled promise of \<^verbatim>\<open>octokit.issues.listForRepo\<close>: \<^verbatim>\<open>status\<close> is \<^verbatim>\<open>'fulfilled'\<close> with a
  \<^verbatim>\<open>value\<close> or \<^verbatim>\<open>'rejected'\<close> with a \<^verbatim>\<open>reason\<close>.  The source reads \<^verbatim>\<open>response.value?.data\<close>, so the
  value may be undefined: \<open>None\<close> here, \<open>Some data\<close> otherwise.
\<close>

datatype rest_outcome =
    Fulfilled "item list option"
  | Rejected cause

text \<open>\<^verbatim>\<open>response.repository[itemType]\<close> of a cursor query: the edges and the page info.\<close>

record connection =
  edges :: "item list"
  pageInfo_hasNextPage :: bool
  pageInfo_endCursor :: "string option"

text \<open>
  The provider, as one run sees it.  A REST page is answered by its page number.  A cursor
  query is answered by the item type, the ordinal of the request (the first request is 1)
  and the cursor sent, so that a provider whose answers change over time is covered.
\<close>

record provider =
  count_reply :: "cause + repo_stats"
  rest_reply :: "nat \<Rightarrow> rest_outcome"
  item_reply :: "string \<Rightarrow> nat \<Rightarrow> string option \<Rightarrow> cause + connection"

datatype request =
    CountQuery
  | ListForRepo nat nat
  | ItemQuery string nat "string option"

text \<open>
  Everything the script does to the outside, in the order it does it: writes to the two
  console streams, network requests (with the credentials they carry), removal of a file
  and appending to a file.
\<close>

datatype event =
    Stdout string
  | Stderr string
  | Net GitHubFetcher request
  | RmSync string
  | AppendFileSync string string

record world =
  files :: "string \<rightharpoonup> string"
  trace :: "event list"

definition emit :: "world \<Rightarrow> event list \<Rightarrow> world" where
  "emit w es = w\<lparr>trace := trace w @ es\<rparr>"

fun is_net :: "event \<Rightarrow> bool" where
  "is_net (Net g r) = True"
| "is_net e = False"

fun is_fs_write :: "event \<Rightarrow> bool" where
  "is_fs_write (RmSync p) = True"
| "is_fs_write (AppendFileSync p d) = True"
| "is_fs_write e = False"

fun is_stderr :: "event \<Rightarrow> bool" where
  "is_stderr (Stderr s) = True"
| "is_stderr e = False"

section \<open>Numbers and strings\<close>

text \<open>The decimal text of an integer, as a template literal prints a number.\<close>

definition digit :: "nat \<Rightarrow> char" where
  "digit n = ''0123456789'' ! n"

fun digits :: "nat \<Rightarrow> string" where
  "digits n = (if n < 10 then [digit n] else digits (n div 10) @ [digit (n mod 10)])"

declare digits.simps [simp del]

definition String_of :: "int \<Rightarrow> string" where
  "String_of i = (if i < 0 then ''-'' @ digits (nat (- i)) else digits (nat i))"

text \<open>
  \<^verbatim>\<open>Math.ceil(a / b)\<close> for integers \<open>a\<close> and a positive integer \<open>b\<close>, in integer arithmetic
  (\<open>div\<close> rounds down).  \<open>Math_ceil_real\<close> below relates it to the ceiling of the real quotient.
\<close>

definition Math_ceil :: "int \<Rightarrow> int \<Rightarrow> int" where
  "Math_ceil a b = - ((- a) div b)"

text \<open>\<^verbatim>\<open>Array.from({length: n}, (_, i) => i + 1)\<close>: a length that is not positive gives
  the empty array.\<close>

definition Array_from :: "int \<Rightarrow> nat list" where
  "Array_from n = map (\<lambda>i. i + 1) [0..<nat n]"

definition CR :: string where
  "CR = [CHR 0x0D]"

definition LF :: string where
  "LF = [CHR 0x0A]"

definition format_title :: "item \<Rightarrow> string" where
  "format_title i = String_of (number i) @ '','' @ title i"

section \<open>The paged fetcher (REST)\<close>

definition issuesPerPage :: nat where
  "issuesPerPage = 100"

definition perPage :: nat where
  "perPage = 100"

text \<open>
  The callback of \<^verbatim>\<open>pageNrList.map\<close>: it writes the progress line and dispatches the request of
  one page.  All pages are dispatched before any response is looked at.
\<close>

definition dispatch_page :: "(string \<Rightarrow> event) \<Rightarrow> GitHubFetcher \<Rightarrow> nat \<Rightarrow> int \<Rightarrow> nat \<Rightarrow> event list" where
  "dispatch_page chan g per_page totalPages page' =
     [chan (''Fetching issues/pull requests page '' @ String_of (int page') @ ''/''
              @ String_of totalPages @ CR),
      Net g (ListForRepo per_page page')]"

text \<open>
  \<^verbatim>\<open>responses.forEach\<close> of the variants that collect strings.  A fulfilled response whose
  value is undefined makes \<^verbatim>\<open>fetchedTitles\<close> undefined, and spreading it raises a type error.
\<close>

fun forEach_responses :: "rest_outcome list \<Rightarrow> string list \<Rightarrow> world \<Rightarrow> (js_error + string list) \<times> world" where
  "forEach_responses [] itemTitles w = (Inr itemTitles, w)"
| "forEach_responses (Fulfilled v # rs) itemTitles w =
     (case v of
        None \<Rightarrow> (Inl TypeError, w)
      | Some data \<Rightarrow> forEach_responses rs (itemTitles @ map format_title data) w)"
| "forEach_responses (Rejected reason # rs) itemTitles w =
     forEach_responses rs itemTitles (emit w [Stderr (''Error: '' @ reason)])"

text \<open>\<^verbatim>\<open>fetchIssueTitles\<close> of \<^verbatim>\<open>fetch-issue-titles.js\<close>; progress goes to standard output.\<close>

definition fetchIssueTitles :: "provider \<Rightarrow> GitHubFetcher \<Rightarrow> int \<Rightarrow> world \<Rightarrow> (js_error + string list) \<times> world" where
  "fetchIssueTitles env g totalIssues w =
     (let totalPages = Math_ceil totalIssues (int issuesPerPage);
          pageNrList = Array_from totalPages;
          w1 = emit w (concat (map (dispatch_page Stdout g issuesPerPage totalPages) pageNrList));
          responses = map (rest_reply env) pageNrList
      in forEach_responses responses [] w1)"

text \<open>\<^verbatim>\<open>RESTTitleFetcher.fetch\<close> of the class-based variant that writes a file; progress goes
  to standard error.\<close>

definition RESTTitleFetcher_fetch :: "provider \<Rightarrow> GitHubFetcher \<Rightarrow> int \<Rightarrow> world \<Rightarrow> (js_error + string list) \<times> world" where
  "RESTTitleFetcher_fetch env g limit w =
     (let totalPages = Math_ceil limit (int perPage);
          pageNrList = Array_from totalPages;
          w1 = emit w (concat (map (dispatch_page Stderr g perPage totalPages) pageNrList));
          responses = map (rest_reply env) pageNrList
      in forEach_responses responses [] w1)"

text \<open>
  \<^verbatim>\<open>RESTTitleFetcher.fetch\<close> of the class-based variant that prints: it collects the records
  themselves, and \<^verbatim>\<open>response.value?.data.forEach(...)\<close> on an undefined value does nothing.
\<close>

fun forEach_responses_items :: "rest_outcome list \<Rightarrow> item list \<Rightarrow> world \<Rightarrow> item list \<times> world" where
  "forEach_responses_items [] items w = (items, w)"
| "forEach_responses_items (Fulfilled v # rs) items w =
     (case v of
        None \<Rightarrow> forEach_responses_items rs items w
      | Some data \<Rightarrow>
          forEach_responses_items rs
            (items @ map (\<lambda>i. \<lparr>number = number i, title = title i\<rparr>) data) w)"
| "forEach_responses_items (Rejected reason # rs) items w =
     forEach_responses_items rs items (emit w [Stderr (''Error: '' @ reason)])"

definition RESTTitleFetcher_fetch_items :: "provider \<Rightarrow> GitHubFetcher \<Rightarrow> int \<Rightarrow> world \<Rightarrow> item list \<times> world" where
  "RESTTitleFetcher_fetch_items env g limit w =
     (let totalPages = Math_ceil limit (int perPage);
          pageNrList = Array_from totalPages;
          w1 = emit w (concat (map (dispatch_page Stderr g perPage totalPages) pageNrList));
          responses = map (rest_reply env) pageNrList
      in forEach_responses_items responses [] w1)"

section \<open>The cursor fetcher (GraphQL)\<close>

text \<open>The variables of the loop: the accumulated results, the continuation flag, the
  cursor and the page counter.\<close>

record 'r loop_vars =
  itemTitles :: "'r list"
  hasNextPage :: bool
  cursor :: "string option"
  page :: nat

text \<open>
  The \<^verbatim>\<open>while (hasNextPage)\<close> loop, shared by the three variants: they differ in the stream
  of the progress line (\<open>chan\<close>) and in what is pushed for an edge (\<open>fmt\<close>).  The loop can
  run forever, so the result is an option: \<open>None\<close> is a loop that never returns.  A rejected
  request is not caught: it leaves the function as an exception, \<open>Inl\<close>, without the results
  collected so far.  \<open>totalPages\<close> occurs in the progress line only.
\<close>

partial_function (option) cursor_loop ::
  "(string \<Rightarrow> event) \<Rightarrow> (item \<Rightarrow> 'r) \<Rightarrow> provider \<Rightarrow> GitHubFetcher \<Rightarrow> string \<Rightarrow> int
    \<Rightarrow> 'r loop_vars \<Rightarrow> world \<Rightarrow> ((js_error + 'r list) \<times> world) option" where
  "cursor_loop chan fmt env g itemType totalPages s w =
     (if hasNextPage s then
        (let w1 = emit w
               [chan (''Fetching '' @ itemType @ '' page '' @ String_of (int (page s)) @ ''/''
                        @ String_of totalPages @ CR),
                Net g (ItemQuery itemType perPage (cursor s))]
         in case item_reply env itemType (page s) (cursor s) of
              Inl reason \<Rightarrow> Some (Inl (RequestError reason), w1)
            | Inr response \<Rightarrow>
                (let s1 = (if hasNextPage s
                           then s\<lparr>itemTitles := itemTitles s @ map fmt (edges response),
                                  hasNextPage := pageInfo_hasNextPage response,
                                  cursor := pageInfo_endCursor response\<rparr>
                           else s)
                 in cursor_loop chan fmt env g itemType totalPages (s1\<lparr>page := page s1 + 1\<rparr>) w1))
      else Some (Inr (itemTitles s), w))"

declare cursor_loop.simps [code]

definition loop_init :: "'r loop_vars" where
  "loop_init = \<lparr>itemTitles = [], hasNextPage = True, cursor = None, page = 1\<rparr>"

text \<open>\<^verbatim>\<open>fetchItemTitles\<close> of \<^verbatim>\<open>fetch-issue-titles.js\<close>.\<close>

definition fetchItemTitles :: "provider \<Rightarrow> GitHubFetcher \<Rightarrow> string \<Rightarrow> int \<Rightarrow> world \<Rightarrow> ((js_error + string list) \<times> world) option" where
  "fetchItemTitles env g itemType totalCount w =
     cursor_loop Stdout format_title env g itemType (Math_ceil totalCount (int perPage)) loop_init w"

text \<open>\<^verbatim>\<open>GraphQLTitleFetcher.fetch\<close> of the class-based variant that writes a file.\<close>

definition GraphQLTitleFetcher_fetch :: "provider \<Rightarrow> GitHubFetcher \<Rightarrow> int \<Rightarrow> string \<Rightarrow> world \<Rightarrow> ((js_error + string list) \<times> world) option" where
  "GraphQLTitleFetcher_fetch env g limit itemType w =
     cursor_loop Stderr format_title env g itemType (Math_ceil limit (int perPage)) loop_init w"

text \<open>\<^verbatim>\<open>GraphQLTitleFetcher.fetch\<close> of the class-based variant that prints.\<close>

definition GraphQLTitleFetcher_fetch_items :: "provider \<Rightarrow> GitHubFetcher \<Rightarrow> int \<Rightarrow> string \<Rightarrow> world \<Rightarrow> ((js_error + item list) \<times> world) option" where
  "GraphQLTitleFetcher_fetch_items env g limit itemType w =
     cursor_loop Stderr (\<lambda>e. \<lparr>number = number e, title = title e\<rparr>) env g itemType
       (Math_ceil limit (int perPage)) loop_init w"

section \<open>The count probe\<close>

text \<open>
  \<^verbatim>\<open>fetchRepoStats\<close> and \<^verbatim>\<open>ItemCountFetcher.fetch\<close>: the request is inside \<^verbatim>\<open>try\<close>, the handler
  logs and the function then ends without \<^verbatim>\<open>return\<close>, so the caller gets undefined (\<open>None\<close>).
\<close>

definition fetchRepoStats :: "provider \<Rightarrow> GitHubFetcher \<Rightarrow> world \<Rightarrow> repo_stats option \<times> world" where
  "fetchRepoStats env g w =
     (let w1 = emit w [Net g CountQuery]
      in case count_reply env of
           Inr response \<Rightarrow>
             (Some \<lparr>issues = issues response, pullRequests = pullRequests response,
                    discussions = discussions response\<rparr>, w1)
         | Inl error \<Rightarrow> (None, emit w1 [Stderr (''Error fetching repository stats: '' @ error)]))"

definition ItemCountFetcher_fetch :: "provider \<Rightarrow> GitHubFetcher \<Rightarrow> world \<Rightarrow> repo_stats option \<times> world" where
  "ItemCountFetcher_fetch env g w =
     (let w1 = emit w [Net g CountQuery]
      in case count_reply env of
           Inr response \<Rightarrow>
             (Some \<lparr>issues = issues response, pullRequests = pullRequests response,
                    discussions = discussions response\<rparr>, w1)
         | Inl error \<Rightarrow> (None, emit w1 [Stderr (''Error fetching repository stats: '' @ error)]))"

section \<open>The scripts\<close>

text \<open>How a run of a script ends: \<^verbatim>\<open>process.exit(n)\<close>, an exception that nothing catches, or
  the end of the module.\<close>

datatype outcome =
    Exit nat
  | Uncaught js_error
  | Finished

text \<open>\<^verbatim>\<open>process.argv[i]\<close>, undefined beyond the end, and the text of a value that may be
  undefined inside a string.\<close>

definition argv_at :: "string list \<Rightarrow> nat \<Rightarrow> string option" where
  "argv_at argv i = (if i < length argv then Some (argv ! i) else None)"

definition js_str :: "string option \<Rightarrow> string" where
  "js_str v = (case v of None \<Rightarrow> ''undefined'' | Some s \<Rightarrow> s)"

definition usage4 :: "string list \<Rightarrow> string" where
  "usage4 argv = ''Usage: node '' @ js_str (argv_at argv 1)
     @ '' <user-or-organisation> <repo> <personal-access-token-file> <output-file>''"

definition usage3 :: "string list \<Rightarrow> string" where
  "usage3 argv = ''Usage: node '' @ js_str (argv_at argv 1)
     @ '' <user-or-organisation> <repo> <personal-access-token-file>''"

text \<open>\<^verbatim>\<open>fs.rmSync(path, {force: true})\<close> and \<^verbatim>\<open>fs.appendFileSync(path, data, 'utf8')\<close>; appending
  to a file that does not exist creates it.\<close>

definition rmSync :: "string \<Rightarrow> world \<Rightarrow> world" where
  "rmSync path w = emit (w\<lparr>files := (files w)(path := None)\<rparr>) [RmSync path]"

definition appendFileSync :: "string \<Rightarrow> string \<Rightarrow> world \<Rightarrow> world" where
  "appendFileSync path data w =
     emit (w\<lparr>files := (files w)(path \<mapsto> (case files w path of None \<Rightarrow> data | Some old \<Rightarrow> old @ data))\<rparr>)
       [AppendFileSync path data]"

text \<open>\<^verbatim>\<open>itemTitles.forEach(itemTitle => fs.appendFileSync(outputFile, `${itemTitle}\n`, 'utf8'))\<close>\<close>

fun append_titles :: "string \<Rightarrow> string list \<Rightarrow> world \<Rightarrow> world" where
  "append_titles outputFile [] w = w"
| "append_titles outputFile (itemTitle # rest) w =
     append_titles outputFile rest (appendFileSync outputFile (itemTitle @ LF) w)"

subsection \<open>\<^verbatim>\<open>fetch-issue-titles.js\<close>\<close>

text \<open>
  The object \<^verbatim>\<open>titles\<close> is a list of key and value in insertion order, which is the order of
  \<^verbatim>\<open>Object.entries\<close> for string keys; an assignment to an existing key keeps its place.
\<close>

type_synonym titles_obj = "(string \<times> string list) list"

fun obj_set :: "string \<Rightarrow> string list \<Rightarrow> titles_obj \<Rightarrow> titles_obj" where
  "obj_set k v [] = [(k, v)]"
| "obj_set k v ((k', v') # kvs) = (if k' = k then (k, v) # kvs else (k', v') # obj_set k v kvs)"

text \<open>The keys that \<^verbatim>\<open>for (const itemType in repoStats)\<close> visits: none for undefined.\<close>

definition keys_of :: "repo_stats option \<Rightarrow> string list" where
  "keys_of repoStats =
     (case repoStats of None \<Rightarrow> [] | Some s \<Rightarrow> [''issues'', ''pullRequests'', ''discussions''])"

definition stat_at :: "repo_stats \<Rightarrow> string \<Rightarrow> int" where
  "stat_at s k = (if k = ''issues'' then issues s
                  else if k = ''pullRequests'' then pullRequests s else discussions s)"

fun for_in_stats :: "provider \<Rightarrow> GitHubFetcher \<Rightarrow> repo_stats \<Rightarrow> string list \<Rightarrow> titles_obj \<Rightarrow> world
    \<Rightarrow> ((js_error + titles_obj) \<times> world) option" where
  "for_in_stats env g s [] titles w = Some (Inr titles, w)"
| "for_in_stats env g s (itemType # ks) titles w =
     (if itemType = ''discussions'' then
        (case fetchItemTitles env g itemType (stat_at s itemType) w of
           None \<Rightarrow> None
         | Some (Inl e, w1) \<Rightarrow> Some (Inl e, w1)
         | Some (Inr ts, w1) \<Rightarrow> for_in_stats env g s ks (obj_set itemType ts titles) w1)
      else for_in_stats env g s ks titles w)"

definition fetchTitles :: "provider \<Rightarrow> GitHubFetcher \<Rightarrow> repo_stats option \<Rightarrow> world
    \<Rightarrow> ((js_error + titles_obj) \<times> world) option" where
  "fetchTitles env g repoStats w =
     (case repoStats of
        None \<Rightarrow> Some (Inl TypeError, w)
      | Some s \<Rightarrow>
          (case for_in_stats env g s (keys_of repoStats) [] w of
             None \<Rightarrow> None
           | Some (Inl e, w1) \<Rightarrow> Some (Inl e, w1)
           | Some (Inr titles, w1) \<Rightarrow>
               (let totalIssues = issues s + pullRequests s
                in case fetchIssueTitles env g totalIssues w1 of
                     (Inl e, w2) \<Rightarrow> Some (Inl e, w2)
                   | (Inr ts, w2) \<Rightarrow> Some (Inr (obj_set ''issues'' ts titles), w2))))"

text \<open>The loop over \<^verbatim>\<open>Object.entries(titles)\<close>.\<close>

fun write_entries :: "string \<Rightarrow> titles_obj \<Rightarrow> world \<Rightarrow> world" where
  "write_entries outputFile [] w = w"
| "write_entries outputFile ((itemType, ts) # kvs) w =
     write_entries outputFile kvs (append_titles outputFile ts w)"

definition fetch_issue_titles_js :: "provider \<Rightarrow> string list \<Rightarrow> world \<Rightarrow> (outcome \<times> world) option" where
  "fetch_issue_titles_js env argv w =
     (if length argv < 6 then Some (Exit 1, emit w [Stdout (usage4 argv)])
      else
        (let outputFile = argv ! 5
         in case files w (argv ! 4) of
              None \<Rightarrow> Some (Uncaught (FsError ''ENOENT''), w)
            | Some key \<Rightarrow>
                (let g = \<lparr>owner = argv ! 2, repo = argv ! 3, authKey = key\<rparr>
                 in case fetchRepoStats env g w of
                      (repoStats, w1) \<Rightarrow>
                        (case fetchTitles env g repoStats w1 of
                           None \<Rightarrow> None
                         | Some (Inl e, w2) \<Rightarrow> Some (Uncaught e, w2)
                         | Some (Inr titles, w2) \<Rightarrow>
                             (let w3 = write_entries outputFile titles (rmSync outputFile w2)
                              in case (map_of titles ''issues'', map_of titles ''discussions'') of
                                   (Some i, Some d) \<Rightarrow>
                                     Some (Finished, emit w3
                                       [Stdout (''Written '' @ String_of (int (length i))
                                          @ '' issue/pull request and '' @ String_of (int (length d))
                                          @ '' discussion titles to '' @ outputFile)])
                                 | _ \<Rightarrow> Some (Uncaught TypeError, w3))))))"

subsection \<open>The class-based script that writes a file\<close>

definition titles_to_file_js :: "provider \<Rightarrow> string list \<Rightarrow> world \<Rightarrow> (outcome \<times> world) option" where
  "titles_to_file_js env argv w =
     (if length argv < 6 then Some (Exit 1, emit w [Stdout (usage4 argv)])
      else
        (let outputFile = argv ! 5
         in case files w (argv ! 4) of
              None \<Rightarrow> Some (Uncaught (FsError ''ENOENT''), w)
            | Some key \<Rightarrow>
                (let g = \<lparr>owner = argv ! 2, repo = argv ! 3, authKey = key\<rparr>
                 in case ItemCountFetcher_fetch env g w of
                      (None, w1) \<Rightarrow> Some (Uncaught TypeError, w1)
                    | (Some itemCounts, w1) \<Rightarrow>
                        (let totalIssues = issues itemCounts + pullRequests itemCounts
                         in case RESTTitleFetcher_fetch env g totalIssues w1 of
                              (Inl e, w2) \<Rightarrow> Some (Uncaught e, w2)
                            | (Inr rest, w2) \<Rightarrow>
                                (case GraphQLTitleFetcher_fetch env g (discussions itemCounts)
                                        ''discussions'' w2 of
                                   None \<Rightarrow> None
                                 | Some (Inl e, w3) \<Rightarrow> Some (Uncaught e, w3)
                                 | Some (Inr disc, w3) \<Rightarrow>
                                     (let titles = rest @ disc;
                                          w4 = append_titles outputFile titles (rmSync outputFile w3)
                                      in Some (Finished, emit w4
                                           [Stdout (''Written '' @ String_of (int (length titles))
                                              @ '' titles to '' @ outputFile)])))))))"

subsection \<open>The class-based script that prints\<close>

text \<open>\<^verbatim>\<open>items.forEach(item => console.log(`${item.number},${item.title}`))\<close>\<close>

definition print_items :: "item list \<Rightarrow> world \<Rightarrow> world" where
  "print_items items w = emit w (map (\<lambda>i. Stdout (String_of (number i) @ '','' @ title i)) items)"

definition titles_to_stdout_js :: "provider \<Rightarrow> string list \<Rightarrow> world \<Rightarrow> (outcome \<times> world) option" where
  "titles_to_stdout_js env argv w =
     (if length argv < 5 then Some (Exit 1, emit w [Stdout (usage3 argv)])
      else
        (let outputFile = argv_at argv 5
         in case files w (argv ! 4) of
              None \<Rightarrow> Some (Uncaught (FsError ''ENOENT''), w)
            | Some key \<Rightarrow>
                (let g = \<lparr>owner = argv ! 2, repo = argv ! 3, authKey = key\<rparr>
                 in case ItemCountFetcher_fetch env g w of
                      (None, w1) \<Rightarrow> Some (Uncaught TypeError, w1)
                    | (Some itemCounts, w1) \<Rightarrow>
                        (let totalIssues = issues itemCounts + pullRequests itemCounts
                         in case RESTTitleFetcher_fetch_items env g totalIssues w1 of
                              (rest, w2) \<Rightarrow>
                                (case GraphQLTitleFetcher_fetch_items env g (discussions itemCounts)
                                        ''discussions'' w2 of
                                   None \<Rightarrow> None
                                 | Some (Inl e, w3) \<Rightarrow> Some (Uncaught e, w3)
                                 | Some (Inr disc, w3) \<Rightarrow>
                                     (let items = rest @ disc;
                                          w4 = print_items items w3
                                      in Some (Finished, emit w4
                                           [Stdout (''Written '' @ String_of (int (length items))
                                              @ '' titles to '' @ js_str outputFile)])))))))"

section \<open>The course of a cursor fetch\<close>

text \<open>
  For stating what the loop does: the cursor that the request number \<open>n + 1\<close> sends when all
  requests before it were answered, the answer to that request, whether the answer announces
  a further page or is the last one, and what the request contributes to the results and
  to the trace.
\<close>

fun cursor_at :: "provider \<Rightarrow> string \<Rightarrow> nat \<Rightarrow> string option" where
  "cursor_at env t 0 = None"
| "cursor_at env t (Suc n) =
     (case item_reply env t (Suc n) (cursor_at env t n) of
        Inl reason \<Rightarrow> None
      | Inr response \<Rightarrow> pageInfo_endCursor response)"

definition reply_at :: "provider \<Rightarrow> string \<Rightarrow> nat \<Rightarrow> cause + connection" where
  "reply_at env t n = item_reply env t (Suc n) (cursor_at env t n)"

definition more_at :: "provider \<Rightarrow> string \<Rightarrow> nat \<Rightarrow> bool" where
  "more_at env t n =
     (case reply_at env t n of Inl reason \<Rightarrow> False | Inr response \<Rightarrow> pageInfo_hasNextPage response)"

definition last_at :: "provider \<Rightarrow> string \<Rightarrow> nat \<Rightarrow> bool" where
  "last_at env t n =
     (case reply_at env t n of Inl reason \<Rightarrow> False | Inr response \<Rightarrow> \<not> pageInfo_hasNextPage response)"

definition records_at :: "(item \<Rightarrow> 'r) \<Rightarrow> provider \<Rightarrow> string \<Rightarrow> nat \<Rightarrow> 'r list" where
  "records_at fmt env t n =
     (case reply_at env t n of Inl reason \<Rightarrow> [] | Inr response \<Rightarrow> map fmt (edges response))"

definition query_events :: "(string \<Rightarrow> event) \<Rightarrow> GitHubFetcher \<Rightarrow> string \<Rightarrow> int \<Rightarrow> provider \<Rightarrow> nat \<Rightarrow> event list" where
  "query_events chan g t totalPages env n =
     [chan (''Fetching '' @ t @ '' page '' @ String_of (int (Suc n)) @ ''/''
              @ String_of totalPages @ CR),
      Net g (ItemQuery t perPage (cursor_at env t n))]"

text \<open>What a REST page contributes to the results and to the error stream.\<close>

fun page_titles :: "rest_outcome \<Rightarrow> string list" where
  "page_titles (Fulfilled (Some data)) = map format_title data"
| "page_titles r = []"

fun page_errors :: "rest_outcome \<Rightarrow> event list" where
  "page_errors (Rejected reason) = [Stderr (''Error: '' @ reason)]"
| "page_errors r = []"

fun has_value :: "rest_outcome \<Rightarrow> bool" where
  "has_value (Fulfilled None) = False"
| "has_value r = True"

text \<open>Projections of the result of a run: how it ended, the network requests and file
  operations in order, and the content of one file.\<close>

definition effects :: "event list \<Rightarrow> event list" where
  "effects es = filter (\<lambda>e. is_net e \<or> is_fs_write e) es"

definition effects_of :: "(outcome \<times> world) option \<Rightarrow> (outcome \<times> event list) option" where
  "effects_of r = map_option (\<lambda>(out, w). (out, effects (trace w))) r"

definition output_of :: "string \<Rightarrow> (outcome \<times> world) option \<Rightarrow> (outcome \<times> string option) option" where
  "output_of path r = map_option (\<lambda>(out, w). (out, files w path)) r"

definition lines_of :: "string list \<Rightarrow> string" where
  "lines_of ts = concat (map (\<lambda>t. t @ LF) ts)"

text \<open>
  The provider's answers end a cursor fetch after request \<open>n + 1\<close> when the first \<open>n\<close> answers
  announce a further page and the next one does not; they fail it there when that request is
  rejected with cause \<open>c\<close>.
\<close>

definition ends_after :: "provider \<Rightarrow> string \<Rightarrow> nat \<Rightarrow> bool" where
  "ends_after env t n = (list_all (more_at env t) [0..<n] \<and> last_at env t n)"

definition fails_after :: "provider \<Rightarrow> string \<Rightarrow> nat \<Rightarrow> cause \<Rightarrow> bool" where
  "fails_after env t n c = (list_all (more_at env t) [0..<n] \<and> reply_at env t n = Inl c)"

definition never_ends :: "provider \<Rightarrow> string \<Rightarrow> bool" where
  "never_ends env t = (\<forall>i. more_at env t i)"

text \<open>What a fetch gives to its caller and does to the outside, without the console.\<close>

definition fetched :: "((js_error + 'r list) \<times> world) option
    \<Rightarrow> ((js_error + 'r list) \<times> event list \<times> (string \<rightharpoonup> string)) option" where
  "fetched r = map_option (\<lambda>(res, w). (res, effects (trace w), files w)) r"

section \<open>A sample repository\<close>

text \<open>Concrete inputs on which the theorems below are instantiated: a repository with three
  REST pages, the second of which is rejected, and two pages of discussions.\<close>

definition demo_g :: GitHubFetcher where
  "demo_g = \<lparr>owner = ''octo'', repo = ''demo'', authKey = ''secret''\<rparr>"

definition demo_argv :: "string list" where
  "demo_argv = [''node'', ''fetch.js'', ''octo'', ''demo'', ''key.txt'', ''out.txt'']"

definition demo_world :: world where
  "demo_world = \<lparr>files = [''key.txt'' \<mapsto> ''secret'', ''out.txt'' \<mapsto> ''old''], trace = []\<rparr>"

definition demo_rest :: "nat \<Rightarrow> rest_outcome" where
  "demo_rest p =
     (if p = 2 then Rejected ''boom''
      else Fulfilled (Some [\<lparr>number = int p, title = ''issue''\<rparr>]))"

definition demo_items :: "string \<Rightarrow> nat \<Rightarrow> string option \<Rightarrow> cause + connection" where
  "demo_items t n c =
     (if c = None
      then Inr \<lparr>edges = [\<lparr>number = 7, title = ''first''\<rparr>], pageInfo_hasNextPage = True,
                pageInfo_endCursor = Some ''c1''\<rparr>
      else Inr \<lparr>edges = [\<lparr>number = 8, title = ''second''\<rparr>], pageInfo_hasNextPage = False,
                pageInfo_endCursor = None\<rparr>)"

definition demo_provider :: provider where
  "demo_provider =
     \<lparr>count_reply = Inr \<lparr>issues = 150, pullRequests = 100, discussions = 2\<rparr>,
      rest_reply = demo_rest, item_reply = demo_items\<rparr>"

text \<open>The same repository when the second discussion request is rejected, when every
  discussion page announces another one, and when the count query is rejected.\<close>

definition failing_items :: "string \<Rightarrow> nat \<Rightarrow> string option \<Rightarrow> cause + connection" where
  "failing_items t n c = (if c = None then demo_items t n c else Inl ''rate limit'')"

definition endless_items :: "string \<Rightarrow> nat \<Rightarrow> string option \<Rightarrow> cause + connection" where
  "endless_items t n c =
     Inr \<lparr>edges = [], pageInfo_hasNextPage = True, pageInfo_endCursor = Some ''again''\<rparr>"

definition small_provider :: provider where
  "small_provider =
     \<lparr>count_reply = Inr \<lparr>issues = 1, pullRequests = 0, discussions = 2\<rparr>,
      rest_reply = (\<lambda>p. Fulfilled (Some [\<lparr>number = 1, title = ''issue''\<rparr>])),
      item_reply = demo_items\<rparr>"

section \<open>Properties\<close>

lemma Math_ceil_real: "Math_ceil a b = \<lceil>real_of_int a / real_of_int b\<rceil>"
  unfolding Math_ceil_def by (simp add: ceiling_divide_eq_div)

subsection \<open>Events\<close>

lemma emit_emit: "emit (emit w a) b = emit w (a @ b)"
  by (simp add: emit_def)

lemma emit_Nil: "emit w [] = w"
  by (simp add: emit_def)

lemma trace_emit: "trace (emit w es) = trace w @ es"
  by (simp add: emit_def)

lemma files_emit: "files (emit w es) = files w"
  by (simp add: emit_def)

subsection \<open>The paged fetcher\<close>

lemma forEach_responses_defined:
  "\<forall>r\<in>set rs. has_value r \<Longrightarrow>
   forEach_responses rs acc w =
     (Inr (acc @ concat (map page_titles rs)), emit w (concat (map page_errors rs)))"
proof (induction rs acc w rule: forEach_responses.induct)
  case (1 itemTitles w)
  then show ?case by (simp add: emit_Nil)
next
  case (2 v rs itemTitles w)
  then show ?case by (cases v) (simp_all add: emit_Nil)
next
  case (3 reason rs itemTitles w)
  then show ?case by (simp add: emit_emit)
qed

lemma forEach_responses_trace:
  "\<exists>es. snd (forEach_responses rs acc w) = emit w es \<and> (\<forall>e\<in>set es. is_stderr e)"
proof (induction rs acc w rule: forEach_responses.induct)
  case (1 itemTitles w)
  show ?case by (rule exI [of _ "[]"]) (simp add: emit_Nil)
next
  case (2 v rs itemTitles w)
  then show ?case
    by (cases v) (auto intro: exI [of _ "[]"] simp: emit_Nil)
next
  case (3 reason rs itemTitles w)
  then obtain es where "snd (forEach_responses rs itemTitles (emit w [Stderr (''Error: '' @ reason)])) =
      emit (emit w [Stderr (''Error: '' @ reason)]) es" "\<forall>e\<in>set es. is_stderr e"
    by blast
  then show ?case
    by (intro exI [of _ "Stderr (''Error: '' @ reason) # es"]) (simp add: emit_emit)
qed

lemma is_net_dispatch:
  "chan = Stdout \<or> chan = Stderr \<Longrightarrow>
   filter is_net (concat (map (dispatch_page chan g n tp) ps)) = map (\<lambda>p. Net g (ListForRepo n p)) ps"
  by (induction ps) (auto simp: dispatch_page_def)

lemma is_net_stderr: "\<forall>e\<in>set es. is_stderr e \<Longrightarrow> filter is_net es = []"
proof (induction es)
  case Nil
  then show ?case by simp
next
  case (Cons e es)
  then show ?case by (cases e) simp_all
qed

lemma Array_from_upt: "Array_from n = [1..<Suc (nat n)]"
  unfolding Array_from_def by (simp add: map_Suc_upt)

lemma paged_requests:
  assumes "chan = Stdout \<or> chan = Stderr"
  shows "filter is_net (trace (snd (forEach_responses (map (rest_reply env) ps) []
            (emit w (concat (map (dispatch_page chan g n tp) ps)))))) =
         filter is_net (trace w) @ map (\<lambda>p. Net g (ListForRepo n p)) ps"
proof -
  obtain es where es: "snd (forEach_responses (map (rest_reply env) ps) []
      (emit w (concat (map (dispatch_page chan g n tp) ps)))) =
      emit (emit w (concat (map (dispatch_page chan g n tp) ps))) es" "\<forall>e\<in>set es. is_stderr e"
    using forEach_responses_trace by blast
  show ?thesis
    by (simp add: es trace_emit is_net_dispatch [OF assms] is_net_stderr)
qed

lemma concat_map_skip:
  "f k = [] \<Longrightarrow> concat (map f (filter (\<lambda>p. p \<noteq> k) xs)) = concat (map f xs)"
  by (induction xs) auto

lemma concat_map_single:
  "distinct xs \<Longrightarrow> k \<in> set xs \<Longrightarrow> \<forall>p\<in>set xs. p \<noteq> k \<longrightarrow> f p = [] \<Longrightarrow> concat (map f xs) = f k"
proof (induction xs)
  case Nil
  then show ?case by simp
next
  case (Cons x xs)
  show ?case
  proof (cases "x = k")
    case True
    with Cons.prems have "\<forall>p\<in>set xs. f p = []" by auto
    then have "concat (map f xs) = []" by (induction xs) auto
    with True show ?thesis by simp
  next
    case False
    with Cons show ?thesis by auto
  qed
qed

lemma paged_one_failure:
  assumes "k \<in> set ps" and "distinct ps" and "rest_reply env k = Rejected c"
    and "\<forall>p\<in>set ps. p \<noteq> k \<longrightarrow> (\<exists>d. rest_reply env p = Fulfilled (Some d))"
  shows "forEach_responses (map (rest_reply env) ps) [] w =
           (Inr (concat (map (\<lambda>p. page_titles (rest_reply env p)) (filter (\<lambda>p. p \<noteq> k) ps))),
            emit w [Stderr (''Error: '' @ c)])"
proof -
  have val: "\<forall>r\<in>set (map (rest_reply env) ps). has_value r"
  proof
    fix r
    assume "r \<in> set (map (rest_reply env) ps)"
    then obtain p where p: "p \<in> set ps" "r = rest_reply env p" by auto
    show "has_value r"
    proof (cases "p = k")
      case True
      with p assms(3) show ?thesis by simp
    next
      case False
      with p assms(4) obtain d where "r = Fulfilled (Some d)" by auto
      then show ?thesis by simp
    qed
  qed
  have "concat (map page_errors (map (rest_reply env) ps)) =
          concat (map (\<lambda>p. page_errors (rest_reply env p)) ps)"
    by (simp add: comp_def)
  also have "\<dots> = page_errors (rest_reply env k)"
    using assms by (intro concat_map_single) auto
  finally have errs: "concat (map page_errors (map (rest_reply env) ps)) = [Stderr (''Error: '' @ c)]"
    using assms(3) by simp
  have "concat (map page_titles (map (rest_reply env) ps)) =
          concat (map (\<lambda>p. page_titles (rest_reply env p)) ps)"
    by (simp add: comp_def)
  also have "\<dots> = concat (map (\<lambda>p. page_titles (rest_reply env p)) (filter (\<lambda>p. p \<noteq> k) ps))"
    using assms(3) by (simp add: concat_map_skip)
  finally show ?thesis
    using errs by (simp add: forEach_responses_defined [OF val])
qed

subsection \<open>The loop of the cursor fetcher\<close>

lemma cursor_loop_stop:
  "\<not> hasNextPage s \<Longrightarrow> cursor_loop chan fmt env g t tp s w = Some (Inr (itemTitles s), w)"
  by (subst cursor_loop.simps) simp

lemma cursor_loop_fail:
  assumes "hasNextPage s" and "page s = Suc m" and "cursor s = cursor_at env t m"
    and "reply_at env t m = Inl c"
  shows "cursor_loop chan fmt env g t tp s w =
           Some (Inl (RequestError c), emit w (query_events chan g t tp env m))"
  using assms by (subst cursor_loop.simps) (simp add: reply_at_def query_events_def)

lemma cursor_loop_next:
  assumes "hasNextPage s" and "page s = Suc m" and "cursor s = cursor_at env t m"
    and "reply_at env t m = Inr r"
  shows "cursor_loop chan fmt env g t tp s w =
           cursor_loop chan fmt env g t tp
             (s\<lparr>itemTitles := itemTitles s @ records_at fmt env t m,
                hasNextPage := pageInfo_hasNextPage r,
                cursor := cursor_at env t (Suc m),
                page := Suc (Suc m)\<rparr>)
             (emit w (query_events chan g t tp env m))"
  using assms
  by (subst cursor_loop.simps) (simp add: reply_at_def query_events_def records_at_def)

lemma cursor_loop_returns:
  assumes "hasNextPage s" and "page s = Suc m" and "cursor s = cursor_at env t m"
    and "\<forall>i<d. more_at env t (m + i)" and "last_at env t (m + d)"
  shows "cursor_loop chan fmt env g t tp s w =
           Some (Inr (itemTitles s @ concat (map (records_at fmt env t) [m..<Suc (m + d)])),
                 emit w (concat (map (query_events chan g t tp env) [m..<Suc (m + d)])))"
  using assms
proof (induction d arbitrary: m s w)
  case 0
  from "0.prems"(5) obtain r where r: "reply_at env t m = Inr r" "\<not> pageInfo_hasNextPage r"
    by (auto simp: last_at_def split: sum.splits)
  show ?case
    using "0.prems"(1-3) r
    by (simp add: cursor_loop_next [where r = r] cursor_loop_stop)
next
  case (Suc d)
  from Suc.prems(4) have "more_at env t (m + 0)" by blast
  then obtain r where r: "reply_at env t m = Inr r" "pageInfo_hasNextPage r"
    by (auto simp: more_at_def split: sum.splits)
  let ?s = "s\<lparr>itemTitles := itemTitles s @ records_at fmt env t m,
                hasNextPage := pageInfo_hasNextPage r,
                cursor := cursor_at env t (Suc m),
                page := Suc (Suc m)\<rparr>"
  have more: "\<forall>i<d. more_at env t (Suc m + i)"
    using Suc.prems(4) by (metis Suc_less_eq add_Suc_shift)
  have last: "last_at env t (Suc m + d)"
    using Suc.prems(5) by simp
  have "cursor_loop chan fmt env g t tp ?s (emit w (query_events chan g t tp env m)) =
          Some (Inr (itemTitles ?s @ concat (map (records_at fmt env t) [Suc m..<Suc (Suc m + d)])),
                emit (emit w (query_events chan g t tp env m))
                  (concat (map (query_events chan g t tp env) [Suc m..<Suc (Suc m + d)])))"
    by (rule Suc.IH) (use r more last in simp_all)
  moreover have "[m..<Suc (m + Suc d)] = m # [Suc m..<Suc (Suc m + d)]"
    by (simp add: upt_conv_Cons)
  ultimately show ?case
    using Suc.prems(1-3) r
    by (simp add: cursor_loop_next [where r = r] emit_emit)
qed

lemma cursor_loop_raises:
  assumes "hasNextPage s" and "page s = Suc m" and "cursor s = cursor_at env t m"
    and "\<forall>i<d. more_at env t (m + i)" and "reply_at env t (m + d) = Inl c"
  shows "cursor_loop chan fmt env g t tp s w =
           Some (Inl (RequestError c),
                 emit w (concat (map (query_events chan g t tp env) [m..<Suc (m + d)])))"
  using assms
proof (induction d arbitrary: m s w)
  case 0
  then show ?case by (simp add: cursor_loop_fail)
next
  case (Suc d)
  from Suc.prems(4) have "more_at env t (m + 0)" by blast
  then obtain r where r: "reply_at env t m = Inr r" "pageInfo_hasNextPage r"
    by (auto simp: more_at_def split: sum.splits)
  let ?s = "s\<lparr>itemTitles := itemTitles s @ records_at fmt env t m,
                hasNextPage := pageInfo_hasNextPage r,
                cursor := cursor_at env t (Suc m),
                page := Suc (Suc m)\<rparr>"
  have more: "\<forall>i<d. more_at env t (Suc m + i)"
    using Suc.prems(4) by (metis Suc_less_eq add_Suc_shift)
  have fail: "reply_at env t (Suc m + d) = Inl c"
    using Suc.prems(5) by simp
  have "cursor_loop chan fmt env g t tp ?s (emit w (query_events chan g t tp env m)) =
          Some (Inl (RequestError c),
                emit (emit w (query_events chan g t tp env m))
                  (concat (map (query_events chan g t tp env) [Suc m..<Suc (Suc m + d)])))"
    by (rule Suc.IH) (use r more fail in simp_all)
  moreover have "[m..<Suc (m + Suc d)] = m # [Suc m..<Suc (Suc m + d)]"
    by (simp add: upt_conv_Cons)
  ultimately show ?case
    using Suc.prems(1-3) r
    by (simp add: cursor_loop_next [where r = r] emit_emit)
qed

lemma cursor_loop_diverges_aux:
  assumes "cursor_loop chan fmt env g t tp s w = Some y"
  shows "\<forall>m. hasNextPage s \<and> page s = Suc m \<and> cursor s = cursor_at env t m
           \<and> (\<forall>i. more_at env t (m + i)) \<longrightarrow> False"
proof (rule cursor_loop.raw_induct
    [where P = "\<lambda>chan fmt env g t tp s w y. \<forall>m. hasNextPage s \<and> page s = Suc m
         \<and> cursor s = cursor_at env t m \<and> (\<forall>i. more_at env t (m + i)) \<longrightarrow> False", OF _ assms])
  fix loop :: "(string \<Rightarrow> event) \<Rightarrow> (item \<Rightarrow> 'a) \<Rightarrow> provider \<Rightarrow> GitHubFetcher \<Rightarrow> string \<Rightarrow> int
    \<Rightarrow> 'a loop_vars \<Rightarrow> world \<Rightarrow> ((js_error + 'a list) \<times> world) option"
  fix chan fmt env g itemType totalPages s w y
  assume IH: "\<And>chan fmt env g t tp s w y. loop chan fmt env g t tp s w = Some y \<Longrightarrow>
      \<forall>m. hasNextPage s \<and> page s = Suc m \<and> cursor s = cursor_at env t m
        \<and> (\<forall>i. more_at env t (m + i)) \<longrightarrow> False"
  assume body: "(if hasNextPage s
      then let w1 = emit w
                     [chan (''Fetching '' @ itemType @ '' page '' @ String_of (int (page s)) @ ''/''
                              @ String_of totalPages @ CR),
                      Net g (ItemQuery itemType perPage (cursor s))]
           in case item_reply env itemType (page s) (cursor s) of
              Inl reason \<Rightarrow> Some (Inl (RequestError reason), w1)
              | Inr response \<Rightarrow>
                  let s1 = if hasNextPage s
                           then s\<lparr>itemTitles := itemTitles s @ map fmt (edges response),
                                    hasNextPage := pageInfo_hasNextPage response,
                                    cursor := pageInfo_endCursor response\<rparr>
                           else s
                  in loop chan fmt env g itemType totalPages (s1\<lparr>page := page s1 + 1\<rparr>) w1
      else Some (Inr (itemTitles s), w)) = Some y"
  show "\<forall>m. hasNextPage s \<and> page s = Suc m \<and> cursor s = cursor_at env itemType m
          \<and> (\<forall>i. more_at env itemType (m + i)) \<longrightarrow> False"
  proof (intro allI impI)
    fix m
    assume a: "hasNextPage s \<and> page s = Suc m \<and> cursor s = cursor_at env itemType m
          \<and> (\<forall>i. more_at env itemType (m + i))"
    then have "more_at env itemType (m + 0)" by blast
    then obtain r where r: "reply_at env itemType m = Inr r" "pageInfo_hasNextPage r"
      by (auto simp: more_at_def split: sum.splits)
    let ?s = "s\<lparr>itemTitles := itemTitles s @ map fmt (edges r),
                  hasNextPage := pageInfo_hasNextPage r,
                  cursor := pageInfo_endCursor r, page := Suc (Suc m)\<rparr>"
    from body a r obtain w1 where call: "loop chan fmt env g itemType totalPages ?s w1 = Some y"
      by (auto simp: reply_at_def Let_def)
    have "\<forall>i. more_at env itemType (Suc m + i)"
      using a by (metis add_Suc_shift)
    moreover have "cursor ?s = cursor_at env itemType (Suc m)"
      using r a by (simp add: reply_at_def)
    ultimately show False
      using IH [OF call] r by auto
  qed
qed

lemma cursor_loop_diverges:
  assumes "hasNextPage s" and "page s = Suc m" and "cursor s = cursor_at env t m"
    and "\<forall>i. more_at env t (m + i)"
  shows "cursor_loop chan fmt env g t tp s w = None"
proof (cases "cursor_loop chan fmt env g t tp s w")
  case None
  then show ?thesis .
next
  case (Some y)
  from cursor_loop_diverges_aux [OF Some] assms show ?thesis by blast
qed

lemma list_all_upt: "list_all P [0..<n] \<longleftrightarrow> (\<forall>i<n. P i)"
  by (auto simp: list_all_iff)

lemma loop_init_simps:
  "hasNextPage loop_init" "page loop_init = Suc 0" "cursor loop_init = cursor_at env t 0"
  "itemTitles loop_init = []"
  by (simp_all add: loop_init_def)

lemma cursor_fetch_returns:
  assumes "ends_after env t n"
  shows "cursor_loop chan fmt env g t tp loop_init w =
           Some (Inr (concat (map (records_at fmt env t) [0..<Suc n])),
                 emit w (concat (map (query_events chan g t tp env) [0..<Suc n])))"
proof -
  from assms have "\<forall>i<n. more_at env t (0 + i)" "last_at env t (0 + n)"
    by (simp_all add: ends_after_def list_all_upt)
  from cursor_loop_returns [OF loop_init_simps(1-3) this, of chan fmt g tp w]
  show ?thesis by (simp add: loop_init_simps)
qed

lemma cursor_fetch_raises:
  assumes "fails_after env t n c"
  shows "cursor_loop chan fmt env g t tp loop_init w =
           Some (Inl (RequestError c),
                 emit w (concat (map (query_events chan g t tp env) [0..<Suc n])))"
proof -
  from assms have "\<forall>i<n. more_at env t (0 + i)" "reply_at env t (0 + n) = Inl c"
    by (simp_all add: fails_after_def list_all_upt)
  from cursor_loop_raises [OF loop_init_simps(1-3) this, of chan fmt g tp w]
  show ?thesis by simp
qed

lemma cursor_fetch_diverges:
  assumes "never_ends env t"
  shows "cursor_loop chan fmt env g t tp loop_init w = None"
proof -
  from assms have "\<forall>i. more_at env t (0 + i)"
    by (simp add: never_ends_def)
  from cursor_loop_diverges [OF loop_init_simps(1-3) this] show ?thesis .
qed

lemma cursor_fetch_cases:
  obtains (ends) n where "ends_after env t n"
  | (fails) n c where "fails_after env t n c"
  | (never) "never_ends env t"
proof (cases "\<forall>i. more_at env t i")
  case True
  then show ?thesis using never by (simp add: never_ends_def)
next
  case False
  then have ex: "\<exists>i. \<not> more_at env t i" by blast
  define n where "n = (LEAST i. \<not> more_at env t i)"
  have n: "\<not> more_at env t n" unfolding n_def using ex by (rule LeastI_ex)
  have before: "\<forall>i<n. more_at env t i"
    unfolding n_def using not_less_Least by blast
  show ?thesis
  proof (cases "reply_at env t n")
    case (Inl c)
    with before have "fails_after env t n c"
      by (simp add: fails_after_def list_all_upt)
    then show ?thesis by (rule fails)
  next
    case (Inr r)
    with n have "last_at env t n" by (simp add: more_at_def last_at_def)
    with before have "ends_after env t n"
      by (simp add: ends_after_def list_all_upt)
    then show ?thesis by (rule ends)
  qed
qed

lemma effects_query_events:
  assumes "chan = Stdout \<or> chan = Stderr"
  shows "effects (concat (map (query_events chan g t tp env) ns)) =
           map (\<lambda>i. Net g (ItemQuery t perPage (cursor_at env t i))) ns"
  using assms by (induction ns) (auto simp: effects_def query_events_def)

lemma no_fs_write_query_events:
  assumes "chan = Stdout \<or> chan = Stderr"
  shows "filter is_fs_write (concat (map (query_events chan g t tp env) ns)) = []"
  using assms by (induction ns) (auto simp: query_events_def)

lemma effects_append: "effects (xs @ ys) = effects xs @ effects ys"
  by (simp add: effects_def)

lemma cursor_fetch_total_count:
  assumes "chan = Stdout \<or> chan = Stderr"
  shows "fetched (cursor_loop chan fmt env g t tp loop_init w) =
         fetched (cursor_loop chan fmt env g t tp' loop_init w)"
proof (cases rule: cursor_fetch_cases [of env t])
  case (ends n)
  then show ?thesis
    by (simp add: cursor_fetch_returns fetched_def trace_emit files_emit effects_append
        effects_query_events [OF assms] del: upt_Suc)
next
  case (fails n c)
  then show ?thesis
    by (simp add: cursor_fetch_raises fetched_def trace_emit files_emit effects_append
        effects_query_events [OF assms] del: upt_Suc)
next
  case never
  then show ?thesis by (simp add: cursor_fetch_diverges)
qed

subsection \<open>What the fetchers do to the world\<close>

lemma paged_fetch_world:
  assumes "chan = Stdout \<or> chan = Stderr"
  shows "\<exists>es. snd (forEach_responses (map (rest_reply env) ps) []
            (emit w (concat (map (dispatch_page chan g n tp) ps)))) = emit w es
          \<and> filter is_fs_write es = []"
proof -
  obtain es where es: "snd (forEach_responses (map (rest_reply env) ps) []
      (emit w (concat (map (dispatch_page chan g n tp) ps)))) =
      emit (emit w (concat (map (dispatch_page chan g n tp) ps))) es" "\<forall>e\<in>set es. is_stderr e"
    using forEach_responses_trace by blast
  have a: "filter is_fs_write es = []"
    using es(2)
  proof (induction es)
    case Nil
    then show ?case by simp
  next
    case (Cons e es)
    then show ?case by (cases e) simp_all
  qed
  have b: "filter is_fs_write (concat (map (dispatch_page chan g n tp) ps)) = []"
    using assms by (induction ps) (auto simp: dispatch_page_def)
  show ?thesis
    by (rule exI [of _ "concat (map (dispatch_page chan g n tp) ps) @ es"])
      (simp add: es(1) emit_emit a b)
qed

lemma fetchIssueTitles_world:
  "\<exists>es. snd (fetchIssueTitles env g n w) = emit w es \<and> filter is_fs_write es = []"
  unfolding fetchIssueTitles_def Let_def by (rule paged_fetch_world) simp

lemma RESTTitleFetcher_fetch_world:
  "\<exists>es. snd (RESTTitleFetcher_fetch env g n w) = emit w es \<and> filter is_fs_write es = []"
  unfolding RESTTitleFetcher_fetch_def Let_def by (rule paged_fetch_world) simp

lemma cursor_fetch_world:
  assumes "chan = Stdout \<or> chan = Stderr"
    and "cursor_loop chan fmt env g t tp loop_init w = Some (r, w')"
  shows "\<exists>es. w' = emit w es \<and> filter is_fs_write es = []"
proof (cases rule: cursor_fetch_cases [of env t])
  case (ends n)
  from assms(2) have "w' = emit w (concat (map (query_events chan g t tp env) [0..<Suc n]))"
    by (simp add: cursor_fetch_returns [OF ends] del: upt_Suc)
  then show ?thesis
    using no_fs_write_query_events [OF assms(1)] by blast
next
  case (fails n c)
  from assms(2) have "w' = emit w (concat (map (query_events chan g t tp env) [0..<Suc n]))"
    by (simp add: cursor_fetch_raises [OF fails] del: upt_Suc)
  then show ?thesis
    using no_fs_write_query_events [OF assms(1)] by blast
next
  case never
  with assms(2) show ?thesis by (simp add: cursor_fetch_diverges)
qed

subsection \<open>Writing the output file\<close>

lemma append_titles_append:
  "append_titles out (xs @ ys) w = append_titles out ys (append_titles out xs w)"
  by (induction xs arbitrary: w) simp_all

lemma trace_append_titles:
  "trace (append_titles out ts w) = trace w @ map (\<lambda>t. AppendFileSync out (t @ LF)) ts"
  by (induction ts arbitrary: w) (simp_all add: appendFileSync_def trace_emit)

lemma files_append_titles:
  "files (append_titles out ts w) =
     (if ts = [] then files w
      else (files w)(out \<mapsto> (case files w out of None \<Rightarrow> [] | Some old \<Rightarrow> old) @ lines_of ts))"
proof (induction ts arbitrary: w)
  case Nil
  then show ?case by simp
next
  case (Cons t ts)
  show ?case
    by (cases "files w out")
      (auto simp: Cons.IH appendFileSync_def files_emit lines_of_def fun_eq_iff)
qed

lemma files_rewritten:
  "files (append_titles out ts (rmSync out w)) =
     (files w)(out := if ts = [] then None else Some (lines_of ts))"
  by (simp add: files_append_titles rmSync_def files_emit)

lemma trace_rewritten:
  "trace (append_titles out ts (rmSync out w)) =
     trace w @ RmSync out # map (\<lambda>t. AppendFileSync out (t @ LF)) ts"
  by (simp add: trace_append_titles rmSync_def trace_emit)

subsection \<open>The course of the scripts\<close>

lemma count_probe_ok:
  assumes "count_reply env = Inr s"
  shows "fetchRepoStats env g w = (Some s, emit w [Net g CountQuery])"
    and "ItemCountFetcher_fetch env g w = (Some s, emit w [Net g CountQuery])"
  using assms by (simp_all add: fetchRepoStats_def ItemCountFetcher_fetch_def)

lemma count_probe_failed:
  assumes "count_reply env = Inl c"
  shows "fetchRepoStats env g w =
           (None, emit w [Net g CountQuery, Stderr (''Error fetching repository stats: '' @ c)])"
    and "ItemCountFetcher_fetch env g w =
           (None, emit w [Net g CountQuery, Stderr (''Error fetching repository stats: '' @ c)])"
  using assms by (simp_all add: fetchRepoStats_def ItemCountFetcher_fetch_def emit_emit)

lemma fetchTitles_undefined: "fetchTitles env g None w = Some (Inl TypeError, w)"
  by (simp add: fetchTitles_def)

lemma fetchTitles_defined:
  "fetchTitles env g (Some s) w =
     (case fetchItemTitles env g ''discussions'' (discussions s) w of
        None \<Rightarrow> None
      | Some (Inl e, w1) \<Rightarrow> Some (Inl e, w1)
      | Some (Inr disc, w1) \<Rightarrow>
          (case fetchIssueTitles env g (issues s + pullRequests s) w1 of
             (Inl e, w2) \<Rightarrow> Some (Inl e, w2)
           | (Inr rest, w2) \<Rightarrow> Some (Inr [(''discussions'', disc), (''issues'', rest)], w2)))"
  by (simp add: fetchTitles_def keys_of_def stat_at_def split: option.splits prod.splits sum.splits)

lemma fetch_issue_titles_js_run:
  assumes "6 \<le> length argv" and "files w (argv ! 4) = Some key" and "count_reply env = Inr s"
    and "g = \<lparr>owner = argv ! 2, repo = argv ! 3, authKey = key\<rparr>"
  shows "fetch_issue_titles_js env argv w =
     (case fetchItemTitles env g ''discussions'' (discussions s) (emit w [Net g CountQuery]) of
        None \<Rightarrow> None
      | Some (Inl e, w1) \<Rightarrow> Some (Uncaught e, w1)
      | Some (Inr disc, w1) \<Rightarrow>
          (case fetchIssueTitles env g (issues s + pullRequests s) w1 of
             (Inl e, w2) \<Rightarrow> Some (Uncaught e, w2)
           | (Inr rest, w2) \<Rightarrow>
               Some (Finished,
                 emit (append_titles (argv ! 5) (disc @ rest) (rmSync (argv ! 5) w2))
                   [Stdout (''Written '' @ String_of (int (length rest))
                      @ '' issue/pull request and '' @ String_of (int (length disc))
                      @ '' discussion titles to '' @ argv ! 5)])))"
  using assms
  by (simp add: fetch_issue_titles_js_def count_probe_ok fetchTitles_defined append_titles_append
      Let_def split: option.splits prod.splits sum.splits)

lemma titles_to_file_js_run:
  assumes "6 \<le> length argv" and "files w (argv ! 4) = Some key" and "count_reply env = Inr s"
    and "g = \<lparr>owner = argv ! 2, repo = argv ! 3, authKey = key\<rparr>"
  shows "titles_to_file_js env argv w =
     (case RESTTitleFetcher_fetch env g (issues s + pullRequests s) (emit w [Net g CountQuery]) of
        (Inl e, w2) \<Rightarrow> Some (Uncaught e, w2)
      | (Inr rest, w2) \<Rightarrow>
          (case GraphQLTitleFetcher_fetch env g (discussions s) ''discussions'' w2 of
             None \<Rightarrow> None
           | Some (Inl e, w3) \<Rightarrow> Some (Uncaught e, w3)
           | Some (Inr disc, w3) \<Rightarrow>
               Some (Finished,
                 emit (append_titles (argv ! 5) (rest @ disc) (rmSync (argv ! 5) w3))
                   [Stdout (''Written '' @ String_of (int (length (rest @ disc)))
                      @ '' titles to '' @ argv ! 5)])))"
  using assms
  by (simp add: titles_to_file_js_def count_probe_ok Let_def
      split: option.splits prod.splits sum.splits)

subsection \<open>The shape of a run\<close>

lemma uncaught_or_finished_v1:
  assumes "fetch_issue_titles_js env argv w = Some (out, w')"
  shows "(\<exists>es. out \<noteq> Finished \<and> w' = emit w es \<and> filter is_fs_write es = [])
       \<or> (\<exists>pre ts msg. out = Finished \<and> filter is_fs_write pre = []
            \<and> w' = emit (append_titles (argv ! 5) ts (rmSync (argv ! 5) (emit w pre))) [Stdout msg])"
proof (cases "length argv < 6")
  case True
  with assms have "out \<noteq> Finished \<and> w' = emit w [Stdout (usage4 argv)]"
    by (auto simp: fetch_issue_titles_js_def)
  then show ?thesis by auto
next
  case False
  then have len: "6 \<le> length argv" by simp
  show ?thesis
  proof (cases "files w (argv ! 4)")
    case None
    with assms False have "out \<noteq> Finished \<and> w' = emit w []"
      by (auto simp: fetch_issue_titles_js_def Let_def emit_Nil)
    then show ?thesis by auto
  next
    case (Some key)
    define g where "g = \<lparr>owner = argv ! 2, repo = argv ! 3, authKey = key\<rparr>"
    show ?thesis
    proof (cases "count_reply env")
      case (Inl c)
      with assms False Some
      have "out \<noteq> Finished
          \<and> w' = emit w [Net g CountQuery, Stderr (''Error fetching repository stats: '' @ c)]"
        by (auto simp: fetch_issue_titles_js_def Let_def count_probe_failed fetchTitles_undefined g_def)
      then show ?thesis by auto
    next
      case (Inr s)
      note run = fetch_issue_titles_js_run [OF len Some Inr g_def]
      show ?thesis
      proof (cases "fetchItemTitles env g ''discussions'' (discussions s) (emit w [Net g CountQuery])")
        case None
        with assms run show ?thesis by simp
      next
        case (Some rw)
        obtain r w1 where rw: "rw = (r, w1)" by (cases rw)
        obtain es1 where es1: "w1 = emit (emit w [Net g CountQuery]) es1" "filter is_fs_write es1 = []"
          using cursor_fetch_world [of Stdout format_title env g "''discussions''" _
              "emit w [Net g CountQuery]" r w1] Some rw
          by (auto simp: fetchItemTitles_def)
        show ?thesis
        proof (cases r)
          case (Inl e)
          with assms run Some rw es1 have "out \<noteq> Finished \<and> w' = emit w (Net g CountQuery # es1)"
            by (auto simp: emit_emit)
          then show ?thesis using es1(2) by auto
        next
          case disc: (Inr disc)
          obtain r2 w2 where rest: "fetchIssueTitles env g (issues s + pullRequests s) w1 = (r2, w2)"
            by (cases "fetchIssueTitles env g (issues s + pullRequests s) w1")
          obtain es2 where es2: "w2 = emit w1 es2" "filter is_fs_write es2 = []"
            using fetchIssueTitles_world [of env g "issues s + pullRequests s" w1]
            by (auto simp: rest)
          show ?thesis
          proof (cases r2)
            case (Inl e)
            with assms run Some rw disc rest es1 es2
            have "out \<noteq> Finished \<and> w' = emit w (Net g CountQuery # es1 @ es2)"
              by (auto simp: emit_emit)
            then show ?thesis using es1(2) es2(2) by auto
          next
            case (Inr ts)
            with assms run Some rw disc rest es1 es2
            have "\<exists>msg. out = Finished \<and> w' = emit (append_titles (argv ! 5) (disc @ ts)
                (rmSync (argv ! 5) (emit w (Net g CountQuery # es1 @ es2)))) [Stdout msg]"
              by (auto simp: emit_emit)
            moreover have "filter is_fs_write (Net g CountQuery # es1 @ es2) = []"
              using es1(2) es2(2) by simp
            ultimately show ?thesis by blast
          qed
        qed
      qed
    qed
  qed
qed

lemma uncaught_or_finished_v2:
  assumes "titles_to_file_js env argv w = Some (out, w')"
  shows "(\<exists>es. out \<noteq> Finished \<and> w' = emit w es \<and> filter is_fs_write es = [])
       \<or> (\<exists>pre ts msg. out = Finished \<and> filter is_fs_write pre = []
            \<and> w' = emit (append_titles (argv ! 5) ts (rmSync (argv ! 5) (emit w pre))) [Stdout msg])"
proof (cases "length argv < 6")
  case True
  with assms have "out \<noteq> Finished \<and> w' = emit w [Stdout (usage4 argv)]"
    by (auto simp: titles_to_file_js_def)
  then show ?thesis by auto
next
  case False
  then have len: "6 \<le> length argv" by simp
  show ?thesis
  proof (cases "files w (argv ! 4)")
    case None
    with assms False have "out \<noteq> Finished \<and> w' = emit w []"
      by (auto simp: titles_to_file_js_def Let_def emit_Nil)
    then show ?thesis by auto
  next
    case (Some key)
    define g where "g = \<lparr>owner = argv ! 2, repo = argv ! 3, authKey = key\<rparr>"
    show ?thesis
    proof (cases "count_reply env")
      case (Inl c)
      with assms False Some
      have "out \<noteq> Finished
          \<and> w' = emit w [Net g CountQuery, Stderr (''Error fetching repository stats: '' @ c)]"
        by (auto simp: titles_to_file_js_def Let_def count_probe_failed g_def)
      then show ?thesis by auto
    next
      case (Inr s)
      note run = titles_to_file_js_run [OF len Some Inr g_def]
      obtain r1 w1 where rest: "RESTTitleFetcher_fetch env g (issues s + pullRequests s)
          (emit w [Net g CountQuery]) = (r1, w1)"
        by (cases "RESTTitleFetcher_fetch env g (issues s + pullRequests s) (emit w [Net g CountQuery])")
      obtain es1 where es1: "w1 = emit (emit w [Net g CountQuery]) es1" "filter is_fs_write es1 = []"
        using RESTTitleFetcher_fetch_world [of env g "issues s + pullRequests s" "emit w [Net g CountQuery]"]
        by (auto simp: rest)
      show ?thesis
      proof (cases r1)
        case (Inl e)
        with assms run rest es1 have "out \<noteq> Finished \<and> w' = emit w (Net g CountQuery # es1)"
          by (auto simp: emit_emit)
        then show ?thesis using es1(2) by auto
      next
        case ts: (Inr ts)
        show ?thesis
        proof (cases "GraphQLTitleFetcher_fetch env g (discussions s) ''discussions'' w1")
          case None
          with assms run rest ts show ?thesis by simp
        next
          case (Some rw)
          obtain r2 w2 where rw: "rw = (r2, w2)" by (cases rw)
          obtain es2 where es2: "w2 = emit w1 es2" "filter is_fs_write es2 = []"
            using cursor_fetch_world [of Stderr format_title env g "''discussions''" _ w1 r2 w2] Some rw
            by (auto simp: GraphQLTitleFetcher_fetch_def)
          show ?thesis
          proof (cases r2)
            case (Inl e)
            with assms run rest ts Some rw es1 es2
            have "out \<noteq> Finished \<and> w' = emit w (Net g CountQuery # es1 @ es2)"
              by (auto simp: emit_emit)
            then show ?thesis using es1(2) es2(2) by auto
          next
            case (Inr disc)
            with assms run rest ts Some rw es1 es2
            have "\<exists>msg. out = Finished \<and> w' = emit (append_titles (argv ! 5) (ts @ disc)
                (rmSync (argv ! 5) (emit w (Net g CountQuery # es1 @ es2)))) [Stdout msg]"
              by (auto simp: emit_emit)
            moreover have "filter is_fs_write (Net g CountQuery # es1 @ es2) = []"
              using es1(2) es2(2) by simp
            ultimately show ?thesis by blast
          qed
        qed
      qed
    qed
  qed
qed

subsection \<open>What a finished run has fetched\<close>

lemma titles_to_file_js_finished:
  assumes "titles_to_file_js env argv w = Some (Finished, w')"
  obtains key s rest w2 disc w3
  where "files w (argv ! 4) = Some key" and "count_reply env = Inr s"
    and "RESTTitleFetcher_fetch env \<lparr>owner = argv ! 2, repo = argv ! 3, authKey = key\<rparr>
           (issues s + pullRequests s)
           (emit w [Net \<lparr>owner = argv ! 2, repo = argv ! 3, authKey = key\<rparr> CountQuery]) = (Inr rest, w2)"
    and "GraphQLTitleFetcher_fetch env \<lparr>owner = argv ! 2, repo = argv ! 3, authKey = key\<rparr>
           (discussions s) ''discussions'' w2 = Some (Inr disc, w3)"
    and "w' = emit (append_titles (argv ! 5) (rest @ disc) (rmSync (argv ! 5) w3))
           [Stdout (''Written '' @ String_of (int (length (rest @ disc))) @ '' titles to '' @ argv ! 5)]"
proof -
  from assms have len: "6 \<le> length argv"
    by (cases "length argv < 6") (simp_all add: titles_to_file_js_def)
  from assms len obtain key where key: "files w (argv ! 4) = Some key"
    by (cases "files w (argv ! 4)") (simp_all add: titles_to_file_js_def Let_def)
  define g where "g = \<lparr>owner = argv ! 2, repo = argv ! 3, authKey = key\<rparr>"
  from assms len key obtain s where s: "count_reply env = Inr s"
    by (cases "count_reply env")
      (simp_all add: titles_to_file_js_def Let_def count_probe_failed)
  note run = titles_to_file_js_run [OF len key s g_def]
  obtain r1 w2 where r1: "RESTTitleFetcher_fetch env g (issues s + pullRequests s)
      (emit w [Net g CountQuery]) = (r1, w2)"
    by (cases "RESTTitleFetcher_fetch env g (issues s + pullRequests s) (emit w [Net g CountQuery])")
  from assms run r1 obtain rest where rest: "r1 = Inr rest"
    by (cases r1) simp_all
  from assms run r1 rest obtain r2 w3 where r2:
    "GraphQLTitleFetcher_fetch env g (discussions s) ''discussions'' w2 = Some (r2, w3)"
    by (cases "GraphQLTitleFetcher_fetch env g (discussions s) ''discussions'' w2") auto
  from assms run r1 rest r2 obtain disc where disc: "r2 = Inr disc"
    by (cases r2) simp_all
  from assms run r1 rest r2 disc
  have "w' = emit (append_titles (argv ! 5) (rest @ disc) (rmSync (argv ! 5) w3))
           [Stdout (''Written '' @ String_of (int (length (rest @ disc))) @ '' titles to '' @ argv ! 5)]"
    by simp
  with that key s r1 rest r2 disc show thesis
    unfolding g_def by blast
qed

lemma fetch_issue_titles_js_finished:
  assumes "fetch_issue_titles_js env argv w = Some (Finished, w')"
  obtains key s disc w2 rest w3
  where "files w (argv ! 4) = Some key" and "count_reply env = Inr s"
    and "fetchItemTitles env \<lparr>owner = argv ! 2, repo = argv ! 3, authKey = key\<rparr> ''discussions''
           (discussions s)
           (emit w [Net \<lparr>owner = argv ! 2, repo = argv ! 3, authKey = key\<rparr> CountQuery])
           = Some (Inr disc, w2)"
    and "fetchIssueTitles env \<lparr>owner = argv ! 2, repo = argv ! 3, authKey = key\<rparr>
           (issues s + pullRequests s) w2 = (Inr rest, w3)"
    and "w' = emit (append_titles (argv ! 5) (disc @ rest) (rmSync (argv ! 5) w3))
           [Stdout (''Written '' @ String_of (int (length rest)) @ '' issue/pull request and ''
              @ String_of (int (length disc)) @ '' discussion titles to '' @ argv ! 5)]"
proof -
  from assms have len: "6 \<le> length argv"
    by (cases "length argv < 6") (simp_all add: fetch_issue_titles_js_def)
  from assms len obtain key where key: "files w (argv ! 4) = Some key"
    by (cases "files w (argv ! 4)") (simp_all add: fetch_issue_titles_js_def Let_def)
  define g where "g = \<lparr>owner = argv ! 2, repo = argv ! 3, authKey = key\<rparr>"
  from assms len key obtain s where s: "count_reply env = Inr s"
    by (cases "count_reply env")
      (simp_all add: fetch_issue_titles_js_def Let_def count_probe_failed fetchTitles_undefined)
  note run = fetch_issue_titles_js_run [OF len key s g_def]
  from assms run obtain r1 w2 where r1:
    "fetchItemTitles env g ''discussions'' (discussions s) (emit w [Net g CountQuery]) = Some (r1, w2)"
    by (cases "fetchItemTitles env g ''discussions'' (discussions s) (emit w [Net g CountQuery])") auto
  from assms run r1 obtain disc where disc: "r1 = Inr disc"
    by (cases r1) simp_all
  obtain r2 w3 where r2: "fetchIssueTitles env g (issues s + pullRequests s) w2 = (r2, w3)"
    by (cases "fetchIssueTitles env g (issues s + pullRequests s) w2")
  from assms run r1 disc r2 obtain rest where rest: "r2 = Inr rest"
    by (cases r2) simp_all
  from assms run r1 disc r2 rest
  have "w' = emit (append_titles (argv ! 5) (disc @ rest) (rmSync (argv ! 5) w3))
           [Stdout (''Written '' @ String_of (int (length rest)) @ '' issue/pull request and ''
              @ String_of (int (length disc)) @ '' discussion titles to '' @ argv ! 5)]"
    by simp
  with that key s r1 disc r2 rest show thesis
    unfolding g_def by blast
qed

section \<open>The claims about the paged fetcher\<close>

text \<open>
  Claim C6.  For every total item count that is not negative, the paged fetcher dispatches
  exactly \<open>ceil (totalItemCount / 100)\<close> page requests, for the pages \<open>1\<close> up to that number in
  this order, each with a page size of 100; for a count of zero it dispatches nothing and
  returns the empty sequence.  This holds for \<^verbatim>\<open>RESTTitleFetcher.fetch\<close> and for
  \<^verbatim>\<open>fetchIssueTitles\<close>.
\<close>

theorem paged_fetch_dispatches_ceil_pages:
  assumes "0 \<le> totalItemCount"
  shows "filter is_net (trace (snd (RESTTitleFetcher_fetch env g totalItemCount w))) =
           filter is_net (trace w) @
             map (\<lambda>p. Net g (ListForRepo 100 p)) [1..<Suc (nat \<lceil>real_of_int totalItemCount / 100\<rceil>)]
       \<and> filter is_net (trace (snd (fetchIssueTitles env g totalItemCount w))) =
           filter is_net (trace w) @
             map (\<lambda>p. Net g (ListForRepo 100 p)) [1..<Suc (nat \<lceil>real_of_int totalItemCount / 100\<rceil>)]
       \<and> RESTTitleFetcher_fetch env g 0 w = (Inr [], w)
       \<and> fetchIssueTitles env g 0 w = (Inr [], w)"
proof -
  have ceil: "Math_ceil totalItemCount 100 = \<lceil>real_of_int totalItemCount / 100\<rceil>"
    using Math_ceil_real [of totalItemCount 100] by simp
  have a: "filter is_net (trace (snd (RESTTitleFetcher_fetch env g totalItemCount w))) =
           filter is_net (trace w) @
             map (\<lambda>p. Net g (ListForRepo 100 p)) [1..<Suc (nat \<lceil>real_of_int totalItemCount / 100\<rceil>)]"
    unfolding RESTTitleFetcher_fetch_def Let_def
    by (simp add: paged_requests perPage_def ceil Array_from_upt del: upt_Suc)
  have b: "filter is_net (trace (snd (fetchIssueTitles env g totalItemCount w))) =
           filter is_net (trace w) @
             map (\<lambda>p. Net g (ListForRepo 100 p)) [1..<Suc (nat \<lceil>real_of_int totalItemCount / 100\<rceil>)]"
    unfolding fetchIssueTitles_def Let_def
    by (simp add: paged_requests issuesPerPage_def ceil Array_from_upt del: upt_Suc)
  have c: "RESTTitleFetcher_fetch env g 0 w = (Inr [], w)"
    by (simp add: RESTTitleFetcher_fetch_def Math_ceil_def Array_from_def emit_Nil)
  have d: "fetchIssueTitles env g 0 w = (Inr [], w)"
    by (simp add: fetchIssueTitles_def Math_ceil_def Array_from_def emit_Nil)
  from a b c d show ?thesis by blast
qed

theorem paged_fetch_dispatches_ceil_pages_witness:
  "(0::int) \<le> 250
   \<and> filter is_net (trace (snd (RESTTitleFetcher_fetch demo_provider demo_g 250 demo_world))) =
       [Net demo_g (ListForRepo 100 1), Net demo_g (ListForRepo 100 2), Net demo_g (ListForRepo 100 3)]
   \<and> filter is_net (trace (snd (fetchIssueTitles demo_provider demo_g 250 demo_world))) =
       [Net demo_g (ListForRepo 100 1), Net demo_g (ListForRepo 100 2), Net demo_g (ListForRepo 100 3)]"
  using paged_fetch_dispatches_ceil_pages [of 250 demo_provider demo_g demo_world]
  by (simp add: demo_world_def upt_conv_Cons)

text \<open>
  Claim C3.  When exactly one page \<open>k\<close> of the \<open>N\<close> pages is rejected and every other page is
  fulfilled with data, the paged fetcher returns normally, with exactly the records of the
  other \<open>N - 1\<close> pages in page order; all \<open>N\<close> requests are dispatched, and the cause of the
  failure is written once to the error stream, after the dispatch.
\<close>

theorem paged_fetch_tolerates_one_failed_page:
  assumes "k \<in> {1..nat (Math_ceil limit 100)}"
    and "rest_reply env k = Rejected c"
    and "\<forall>p\<in>{1..nat (Math_ceil limit 100)}. p \<noteq> k \<longrightarrow> (\<exists>d. rest_reply env p = Fulfilled (Some d))"
  shows "RESTTitleFetcher_fetch env g limit w =
           (Inr (concat (map (\<lambda>p. page_titles (rest_reply env p))
                   (filter (\<lambda>p. p \<noteq> k) [1..<Suc (nat (Math_ceil limit 100))]))),
            emit w (concat (map (dispatch_page Stderr g 100 (Math_ceil limit 100))
                      [1..<Suc (nat (Math_ceil limit 100))])
                    @ [Stderr (''Error: '' @ c)]))
       \<and> fetchIssueTitles env g limit w =
           (Inr (concat (map (\<lambda>p. page_titles (rest_reply env p))
                   (filter (\<lambda>p. p \<noteq> k) [1..<Suc (nat (Math_ceil limit 100))]))),
            emit w (concat (map (dispatch_page Stdout g 100 (Math_ceil limit 100))
                      [1..<Suc (nat (Math_ceil limit 100))])
                    @ [Stderr (''Error: '' @ c)]))"
proof -
  let ?ps = "[1..<Suc (nat (Math_ceil limit 100))]"
  have k: "k \<in> set ?ps" using assms(1) by auto
  have ok: "\<forall>p\<in>set ?ps. p \<noteq> k \<longrightarrow> (\<exists>d. rest_reply env p = Fulfilled (Some d))"
    using assms(3) by auto
  note one = paged_one_failure [OF k distinct_upt assms(2) ok]
  show ?thesis
    unfolding RESTTitleFetcher_fetch_def fetchIssueTitles_def Let_def
    by (simp add: one [unfolded One_nat_def] perPage_def issuesPerPage_def Array_from_upt
        emit_emit del: upt_Suc)
qed

theorem paged_fetch_tolerates_one_failed_page_witness:
  "2 \<in> {1..nat (Math_ceil 250 100)}
   \<and> rest_reply demo_provider 2 = Rejected ''boom''
   \<and> rest_reply demo_provider 1 = Fulfilled (Some [\<lparr>number = 1, title = ''issue''\<rparr>])
   \<and> rest_reply demo_provider 3 = Fulfilled (Some [\<lparr>number = 3, title = ''issue''\<rparr>])
   \<and> fst (RESTTitleFetcher_fetch demo_provider demo_g 250 demo_world) = Inr [''1,issue'', ''3,issue'']
   \<and> fst (fetchIssueTitles demo_provider demo_g 250 demo_world) = Inr [''1,issue'', ''3,issue'']
   \<and> filter is_stderr (trace (snd (fetchIssueTitles demo_provider demo_g 250 demo_world))) =
       [Stderr ''Error: boom'']"
proof -
  have n: "nat (Math_ceil 250 100) = 3"
    by (simp add: Math_ceil_def)
  have h1: "2 \<in> {1..nat (Math_ceil 250 100)}"
    by (simp add: n)
  have h2: "rest_reply demo_provider 2 = Rejected ''boom''"
    by (simp add: demo_provider_def demo_rest_def)
  have h3: "\<forall>p\<in>{1..nat (Math_ceil 250 100)}. p \<noteq> 2 \<longrightarrow> (\<exists>d. rest_reply demo_provider p = Fulfilled (Some d))"
    by (simp add: demo_provider_def demo_rest_def)
  have pages: "[1..<Suc 3] = [1, 2, 3]"
    by (simp add: upt_conv_Cons)
  have t: "String_of 1 = ''1''" "String_of 3 = ''3''"
    by (simp_all add: String_of_def digits.simps digit_def)
  from paged_fetch_tolerates_one_failed_page [OF h1 h2 h3, of demo_g demo_world]
  show ?thesis
    using h1 h2
    by (simp add: n upt_conv_Cons demo_provider_def demo_rest_def format_title_def t
        trace_emit demo_world_def dispatch_page_def)
qed

section \<open>The claims about the cursor fetcher\<close>

text \<open>
  Claim C7.  The loop of the cursor fetcher ends exactly when the provider's continuation
  flag becomes false.  When the first \<open>n\<close> answers announce a further page and the next one
  does not, the fetch returns after exactly \<open>n + 1\<close> requests, one per page, each sending the
  cursor of the answer before it, whatever total item count was supplied.  A fetch that
  returns normally has met such an answer, and when every answer announces a further page
  the fetch never returns, again whatever total item count was supplied.  This holds for
  \<^verbatim>\<open>fetchItemTitles\<close> and for \<^verbatim>\<open>GraphQLTitleFetcher.fetch\<close>.
\<close>

theorem cursor_fetch_stops_with_continuation_flag:
  "(ends_after env t n \<longrightarrow>
      fetched (fetchItemTitles env g t totalItemCount w) =
        Some (Inr (concat (map (records_at format_title env t) [0..<Suc n])),
              effects (trace w) @ map (\<lambda>i. Net g (ItemQuery t 100 (cursor_at env t i))) [0..<Suc n],
              files w)
    \<and> fetched (GraphQLTitleFetcher_fetch env g totalItemCount t w) =
        Some (Inr (concat (map (records_at format_title env t) [0..<Suc n])),
              effects (trace w) @ map (\<lambda>i. Net g (ItemQuery t 100 (cursor_at env t i))) [0..<Suc n],
              files w))
   \<and> (fetchItemTitles env g t totalItemCount w = Some (Inr ts, w') \<longrightarrow> (\<exists>m. ends_after env t m))
   \<and> (GraphQLTitleFetcher_fetch env g totalItemCount t w = Some (Inr ts, w') \<longrightarrow>
        (\<exists>m. ends_after env t m))
   \<and> (never_ends env t \<longrightarrow>
        fetchItemTitles env g t totalItemCount w = None
      \<and> GraphQLTitleFetcher_fetch env g totalItemCount t w = None)"
proof -
  have returns: "ends_after env t n \<Longrightarrow> chan = Stdout \<or> chan = Stderr \<Longrightarrow>
      fetched (cursor_loop chan format_title env g t tp loop_init w) =
        Some (Inr (concat (map (records_at format_title env t) [0..<Suc n])),
              effects (trace w) @ map (\<lambda>i. Net g (ItemQuery t 100 (cursor_at env t i))) [0..<Suc n],
              files w)" for chan tp
    by (simp add: cursor_fetch_returns fetched_def trace_emit files_emit effects_append
        effects_query_events perPage_def del: upt_Suc)
  have met: "\<exists>m. ends_after env t m"
    if "cursor_loop chan format_title env g t tp loop_init w = Some (Inr ts, w')" for chan tp
  proof (cases rule: cursor_fetch_cases [of env t])
    case (ends m)
    then show ?thesis by blast
  next
    case (fails m c)
    with that show ?thesis by (simp add: cursor_fetch_raises del: upt_Suc)
  next
    case never
    with that show ?thesis by (simp add: cursor_fetch_diverges)
  qed
  show ?thesis
    unfolding fetchItemTitles_def GraphQLTitleFetcher_fetch_def
    using returns met cursor_fetch_diverges by blast
qed

theorem cursor_fetch_stops_with_continuation_flag_witness:
  "ends_after demo_provider ''discussions'' 1
   \<and> fetched (fetchItemTitles demo_provider demo_g ''discussions'' 0 demo_world) =
       Some (Inr [''7,first'', ''8,second''],
             [Net demo_g (ItemQuery ''discussions'' 100 None),
              Net demo_g (ItemQuery ''discussions'' 100 (Some ''c1''))],
             files demo_world)
   \<and> fetched (GraphQLTitleFetcher_fetch demo_provider demo_g 1000 ''discussions'' demo_world) =
       Some (Inr [''7,first'', ''8,second''],
             [Net demo_g (ItemQuery ''discussions'' 100 None),
              Net demo_g (ItemQuery ''discussions'' 100 (Some ''c1''))],
             files demo_world)
   \<and> never_ends (demo_provider\<lparr>item_reply := endless_items\<rparr>) ''discussions''
   \<and> fetchItemTitles (demo_provider\<lparr>item_reply := endless_items\<rparr>) demo_g ''discussions'' 0 demo_world
       = None"
proof -
  have c: "cursor_at demo_provider ''discussions'' (Suc 0) = Some ''c1''"
    by (simp add: demo_provider_def demo_items_def)
  have r: "reply_at demo_provider ''discussions'' 0 =
             Inr \<lparr>edges = [\<lparr>number = 7, title = ''first''\<rparr>], pageInfo_hasNextPage = True,
                  pageInfo_endCursor = Some ''c1''\<rparr>"
    "reply_at demo_provider ''discussions'' (Suc 0) =
             Inr \<lparr>edges = [\<lparr>number = 8, title = ''second''\<rparr>], pageInfo_hasNextPage = False,
                  pageInfo_endCursor = None\<rparr>"
    by (simp_all add: reply_at_def demo_provider_def demo_items_def)
  have h1: "ends_after demo_provider ''discussions'' 1"
    by (simp add: ends_after_def more_at_def last_at_def r)
  have h2: "never_ends (demo_provider\<lparr>item_reply := endless_items\<rparr>) ''discussions''"
    by (simp add: never_ends_def more_at_def reply_at_def endless_items_def)
  have t: "String_of 7 = ''7''" "String_of 8 = ''8''"
    by (simp_all add: String_of_def digits.simps digit_def)
  have e: "effects (trace demo_world) = []"
    by (simp add: demo_world_def effects_def)
  from cursor_fetch_stops_with_continuation_flag
    [of demo_provider "''discussions''" 1 demo_g 0 demo_world]
    cursor_fetch_stops_with_continuation_flag
    [of demo_provider "''discussions''" 1 demo_g 1000 demo_world]
    cursor_fetch_stops_with_continuation_flag
    [of "demo_provider\<lparr>item_reply := endless_items\<rparr>" "''discussions''" 0 demo_g 0 demo_world]
  show ?thesis
    using h1 h2
    by (simp add: records_at_def r c format_title_def t e del: cursor_at.simps(2))
qed

text \<open>
  Claim C8.  Two runs of the cursor fetcher against the same provider that differ only in
  the total item count give the same result to the caller (the same records, the same
  error, or both never return), send the same requests and leave the same files: the count
  reaches the progress line only.
\<close>

theorem cursor_fetch_ignores_total_count:
  "fetched (fetchItemTitles env g t a w) = fetched (fetchItemTitles env g t b w)
   \<and> fetched (GraphQLTitleFetcher_fetch env g a t w) = fetched (GraphQLTitleFetcher_fetch env g b t w)"
  unfolding fetchItemTitles_def GraphQLTitleFetcher_fetch_def
  by (simp add: cursor_fetch_total_count [where tp = "Math_ceil a (int perPage)" and tp' = "Math_ceil b (int perPage)"])

theorem cursor_fetch_ignores_total_count_witness:
  "fetched (fetchItemTitles demo_provider demo_g ''discussions'' 0 demo_world) =
     fetched (fetchItemTitles demo_provider demo_g ''discussions'' 1000 demo_world)"
  using cursor_fetch_ignores_total_count [of demo_provider demo_g "''discussions''" 0 demo_world 1000]
  by simp

section \<open>The claims about failures and the command line\<close>

text \<open>
  Claim C4.  A rejected page request of the cursor fetcher, the first one or a later one,
  ends the fetch with the error of that request and with no records: the records of the
  pages before it are not returned.  The scripts do not catch the error: the run of
  \<^verbatim>\<open>fetch-issue-titles.js\<close> ends with it, and so does the run of the class-based script unless
  the paged fetch has already raised; in both the output file is not touched, so that no
  record is written.
\<close>

theorem cursor_fetch_aborts_on_failed_page:
  assumes "fails_after env t n c"
  shows "fetchItemTitles env g t totalItemCount w =
           Some (Inl (RequestError c),
                 emit w (concat (map (query_events Stdout g t (Math_ceil totalItemCount 100) env)
                                   [0..<Suc n])))
       \<and> GraphQLTitleFetcher_fetch env g totalItemCount t w =
           Some (Inl (RequestError c),
                 emit w (concat (map (query_events Stderr g t (Math_ceil totalItemCount 100) env)
                                   [0..<Suc n])))
       \<and> (t = ''discussions'' \<and> 6 \<le> length argv \<and> files w (argv ! 4) = Some key
            \<and> count_reply env = Inr s \<longrightarrow>
           (\<exists>w'. fetch_issue_titles_js env argv w = Some (Uncaught (RequestError c), w')
                \<and> files w' = files w
                \<and> filter is_fs_write (trace w') = filter is_fs_write (trace w))
         \<and> (\<exists>e w'. titles_to_file_js env argv w = Some (Uncaught e, w')
                \<and> files w' = files w
                \<and> filter is_fs_write (trace w') = filter is_fs_write (trace w)))"
proof -
  have a: "fetchItemTitles env g t totalItemCount w =
           Some (Inl (RequestError c),
                 emit w (concat (map (query_events Stdout g t (Math_ceil totalItemCount 100) env)
                                   [0..<Suc n])))" for g totalItemCount w
    unfolding fetchItemTitles_def
    by (simp add: cursor_fetch_raises [OF assms] perPage_def del: upt_Suc)
  have b: "GraphQLTitleFetcher_fetch env g totalItemCount t w =
           Some (Inl (RequestError c),
                 emit w (concat (map (query_events Stderr g t (Math_ceil totalItemCount 100) env)
                                   [0..<Suc n])))" for g totalItemCount w
    unfolding GraphQLTitleFetcher_fetch_def
    by (simp add: cursor_fetch_raises [OF assms] perPage_def del: upt_Suc)
  have c: "(\<exists>w'. fetch_issue_titles_js env argv w = Some (Uncaught (RequestError c), w')
                \<and> files w' = files w
                \<and> filter is_fs_write (trace w') = filter is_fs_write (trace w))
         \<and> (\<exists>e w'. titles_to_file_js env argv w = Some (Uncaught e, w')
                \<and> files w' = files w
                \<and> filter is_fs_write (trace w') = filter is_fs_write (trace w))"
    if h: "t = ''discussions''" "6 \<le> length argv" "files w (argv ! 4) = Some key"
      "count_reply env = Inr s"
  proof
    define g where "g = \<lparr>owner = argv ! 2, repo = argv ! 3, authKey = key\<rparr>"
    show "\<exists>w'. fetch_issue_titles_js env argv w = Some (Uncaught (RequestError c), w')
                \<and> files w' = files w
                \<and> filter is_fs_write (trace w') = filter is_fs_write (trace w)"
      using a [of g "discussions s" "emit w [Net g CountQuery]"] h(1)
      by (simp add: fetch_issue_titles_js_run [OF h(2-4) g_def] files_emit trace_emit
          no_fs_write_query_events del: upt_Suc)
    obtain r w2 where rest: "RESTTitleFetcher_fetch env g (issues s + pullRequests s)
        (emit w [Net g CountQuery]) = (r, w2)"
      by (cases "RESTTitleFetcher_fetch env g (issues s + pullRequests s) (emit w [Net g CountQuery])")
    obtain es where es: "w2 = emit (emit w [Net g CountQuery]) es" "filter is_fs_write es = []"
      using RESTTitleFetcher_fetch_world [of env g "issues s + pullRequests s" "emit w [Net g CountQuery]"]
      by (auto simp: rest)
    show "\<exists>e w'. titles_to_file_js env argv w = Some (Uncaught e, w')
                \<and> files w' = files w
                \<and> filter is_fs_write (trace w') = filter is_fs_write (trace w)"
    proof (cases r)
      case (Inl e)
      then show ?thesis
        using rest es
        by (simp add: titles_to_file_js_run [OF h(2-4) g_def] files_emit trace_emit)
    next
      case (Inr ts)
      then show ?thesis
        using rest es b [of g "discussions s" w2] h(1)
        by (simp add: titles_to_file_js_run [OF h(2-4) g_def] files_emit trace_emit
            no_fs_write_query_events del: upt_Suc)
    qed
  qed
  from a b c show ?thesis by blast
qed

theorem cursor_fetch_aborts_on_failed_page_witness:
  "fails_after (small_provider\<lparr>item_reply := failing_items\<rparr>) ''discussions'' 1 ''rate limit''
   \<and> fst (the (fetchItemTitles (small_provider\<lparr>item_reply := failing_items\<rparr>) demo_g
         ''discussions'' 2 demo_world)) = Inl (RequestError ''rate limit'')
   \<and> length demo_argv = 6
   \<and> files demo_world (demo_argv ! 4) = Some ''secret''
   \<and> output_of ''out.txt''
        (fetch_issue_titles_js (small_provider\<lparr>item_reply := failing_items\<rparr>) demo_argv demo_world) =
       Some (Uncaught (RequestError ''rate limit''), Some ''old'')"
proof -
  let ?env = "small_provider\<lparr>item_reply := failing_items\<rparr>"
  have r: "reply_at ?env ''discussions'' 0 =
             Inr \<lparr>edges = [\<lparr>number = 7, title = ''first''\<rparr>], pageInfo_hasNextPage = True,
                  pageInfo_endCursor = Some ''c1''\<rparr>"
    "reply_at ?env ''discussions'' (Suc 0) = Inl ''rate limit''"
    by (simp_all add: reply_at_def small_provider_def failing_items_def demo_items_def)
  have h1: "fails_after ?env ''discussions'' 1 ''rate limit''"
    by (simp add: fails_after_def more_at_def r)
  have h2: "length demo_argv = 6" "files demo_world (demo_argv ! 4) = Some ''secret''"
    by (simp_all add: demo_argv_def demo_world_def)
  have h3: "count_reply ?env = Inr \<lparr>issues = 1, pullRequests = 0, discussions = 2\<rparr>"
    by (simp add: small_provider_def)
  from cursor_fetch_aborts_on_failed_page [OF h1, of demo_g 2 demo_world demo_argv "''secret''"
      "\<lparr>issues = 1, pullRequests = 0, discussions = 2\<rparr>"]
  show ?thesis
    using h1 h2 h3 by (auto simp: output_of_def demo_world_def)
qed

text \<open>
  Claim C2.  When the count query is rejected, the count probe logs the error and returns
  undefined; no counts are made up.  The scripts go on, and the first read of a field of
  the undefined counts raises a type error that nothing catches: the run ends with it after
  the one request and the one log line.
\<close>

theorem failed_count_probe_ends_in_type_error:
  assumes "count_reply env = Inl c" and "6 \<le> length argv" and "files w (argv ! 4) = Some key"
    and "g = \<lparr>owner = argv ! 2, repo = argv ! 3, authKey = key\<rparr>"
  shows "fetchRepoStats env g w =
           (None, emit w [Net g CountQuery, Stderr (''Error fetching repository stats: '' @ c)])
       \<and> ItemCountFetcher_fetch env g w =
           (None, emit w [Net g CountQuery, Stderr (''Error fetching repository stats: '' @ c)])
       \<and> fetch_issue_titles_js env argv w =
           Some (Uncaught TypeError,
                 emit w [Net g CountQuery, Stderr (''Error fetching repository stats: '' @ c)])
       \<and> titles_to_file_js env argv w =
           Some (Uncaught TypeError,
                 emit w [Net g CountQuery, Stderr (''Error fetching repository stats: '' @ c)])
       \<and> titles_to_stdout_js env argv w =
           Some (Uncaught TypeError,
                 emit w [Net g CountQuery, Stderr (''Error fetching repository stats: '' @ c)])"
  using assms
  by (simp add: count_probe_failed fetch_issue_titles_js_def titles_to_file_js_def
      titles_to_stdout_js_def fetchTitles_undefined Let_def)

theorem failed_count_probe_ends_in_type_error_witness:
  "count_reply (demo_provider\<lparr>count_reply := Inl ''bad credentials''\<rparr>) = Inl ''bad credentials''
   \<and> length demo_argv = 6
   \<and> files demo_world (demo_argv ! 4) = Some ''secret''
   \<and> titles_to_file_js (demo_provider\<lparr>count_reply := Inl ''bad credentials''\<rparr>) demo_argv demo_world =
       Some (Uncaught TypeError,
             emit demo_world [Net demo_g CountQuery,
               Stderr ''Error fetching repository stats: bad credentials''])
   \<and> fetch_issue_titles_js (demo_provider\<lparr>count_reply := Inl ''bad credentials''\<rparr>) demo_argv demo_world =
       Some (Uncaught TypeError,
             emit demo_world [Net demo_g CountQuery,
               Stderr ''Error fetching repository stats: bad credentials''])"
proof -
  have h: "count_reply (demo_provider\<lparr>count_reply := Inl ''bad credentials''\<rparr>) = Inl ''bad credentials''"
    "6 \<le> length demo_argv" "files demo_world (demo_argv ! 4) = Some ''secret''"
    "demo_g = \<lparr>owner = demo_argv ! 2, repo = demo_argv ! 3, authKey = ''secret''\<rparr>"
    by (simp_all add: demo_argv_def demo_world_def demo_g_def)
  from failed_count_probe_ends_in_type_error [OF h, of ]
  show ?thesis
    using h(1,3) by (simp add: demo_argv_def)
qed

text \<open>
  Claim C9.  With fewer arguments than the script requires (four for the two scripts that
  write a file, three for the script that prints), the run writes the usage line to standard
  output and exits with status 1, and does nothing else: no request is sent.  With all
  required arguments the run never ends in an exit.
\<close>

theorem missing_arguments_print_usage_and_exit:
  "(length argv < 6 \<longrightarrow>
      fetch_issue_titles_js env argv w = Some (Exit 1, emit w [Stdout (usage4 argv)])
    \<and> titles_to_file_js env argv w = Some (Exit 1, emit w [Stdout (usage4 argv)]))
   \<and> (length argv < 5 \<longrightarrow>
      titles_to_stdout_js env argv w = Some (Exit 1, emit w [Stdout (usage3 argv)]))
   \<and> (6 \<le> length argv' \<longrightarrow>
      fetch_issue_titles_js env argv' w \<noteq> Some (Exit n, w')
    \<and> titles_to_file_js env argv' w \<noteq> Some (Exit n, w'))
   \<and> (5 \<le> length argv' \<longrightarrow> titles_to_stdout_js env argv' w \<noteq> Some (Exit n, w'))"
proof -
  have a: "length argv < 6 \<Longrightarrow>
      fetch_issue_titles_js env argv w = Some (Exit 1, emit w [Stdout (usage4 argv)])
    \<and> titles_to_file_js env argv w = Some (Exit 1, emit w [Stdout (usage4 argv)])"
    by (simp add: fetch_issue_titles_js_def titles_to_file_js_def)
  have b: "length argv < 5 \<Longrightarrow>
      titles_to_stdout_js env argv w = Some (Exit 1, emit w [Stdout (usage3 argv)])"
    by (simp add: titles_to_stdout_js_def)
  have c: "6 \<le> length argv' \<Longrightarrow> fetch_issue_titles_js env argv' w \<noteq> Some (Exit n, w')"
    by (auto simp: fetch_issue_titles_js_def Let_def split: option.splits prod.splits sum.splits)
  have d: "6 \<le> length argv' \<Longrightarrow> titles_to_file_js env argv' w \<noteq> Some (Exit n, w')"
    by (auto simp: titles_to_file_js_def Let_def split: option.splits prod.splits sum.splits)
  have e: "5 \<le> length argv' \<Longrightarrow> titles_to_stdout_js env argv' w \<noteq> Some (Exit n, w')"
    by (auto simp: titles_to_stdout_js_def Let_def split: option.splits prod.splits sum.splits)
  from a b c d e show ?thesis by blast
qed

theorem missing_arguments_print_usage_and_exit_witness:
  "length (take 5 demo_argv) < 6
   \<and> fetch_issue_titles_js demo_provider (take 5 demo_argv) demo_world =
       Some (Exit 1, emit demo_world [Stdout
         ''Usage: node fetch.js <user-or-organisation> <repo> <personal-access-token-file> <output-file>''])
   \<and> length (take 4 demo_argv) < 5
   \<and> titles_to_stdout_js demo_provider (take 4 demo_argv) demo_world =
       Some (Exit 1, emit demo_world [Stdout
         ''Usage: node fetch.js <user-or-organisation> <repo> <personal-access-token-file>''])
   \<and> 6 \<le> length demo_argv
   \<and> titles_to_file_js demo_provider demo_argv demo_world \<noteq> Some (Exit 1, demo_world)
   \<and> titles_to_stdout_js demo_provider (take 5 demo_argv) demo_world \<noteq> Some (Exit 1, demo_world)"
  using missing_arguments_print_usage_and_exit
      [of "take 5 demo_argv" demo_provider demo_world demo_argv 1 demo_world]
    missing_arguments_print_usage_and_exit
      [of "take 4 demo_argv" demo_provider demo_world "take 5 demo_argv" 1 demo_world]
  by (simp add: demo_argv_def usage4_def usage3_def argv_at_def js_str_def)

section \<open>The claims about the output\<close>

text \<open>
  Claim C10.  A run of a file-writing script that ends with an uncaught error, as it does
  when the discussion fetch raises or when the count probe returned undefined, leaves every
  file as it was and has performed no file operation.  In a run that finishes, nothing is
  removed or appended before the last request has been sent and answered: the trace splits
  into a part without file operations and a later part without requests.
\<close>

theorem aborted_run_leaves_output_file:
  "(fetch_issue_titles_js env argv w = Some (Uncaught e, w') \<longrightarrow>
      files w' = files w \<and> filter is_fs_write (trace w') = filter is_fs_write (trace w))
   \<and> (titles_to_file_js env argv w = Some (Uncaught e, w') \<longrightarrow>
      files w' = files w \<and> filter is_fs_write (trace w') = filter is_fs_write (trace w))
   \<and> (fetch_issue_titles_js env argv w = Some (Finished, w')
        \<or> titles_to_file_js env argv w = Some (Finished, w') \<longrightarrow>
      (\<exists>pre post. trace w' = trace w @ pre @ post
         \<and> filter is_fs_write pre = [] \<and> filter is_net post = []))"
proof -
  have aborted: "files w' = files w \<and> filter is_fs_write (trace w') = filter is_fs_write (trace w)"
    if "(\<exists>es. Uncaught e \<noteq> Finished \<and> w' = emit w es \<and> filter is_fs_write es = [])
       \<or> (\<exists>pre ts msg. Uncaught e = Finished \<and> filter is_fs_write pre = []
            \<and> w' = emit (append_titles (argv ! 5) ts (rmSync (argv ! 5) (emit w pre))) [Stdout msg])"
    using that by (auto simp: files_emit trace_emit)
  have finished: "\<exists>pre post. trace w' = trace w @ pre @ post
         \<and> filter is_fs_write pre = [] \<and> filter is_net post = []"
    if "(\<exists>es. Finished \<noteq> Finished \<and> w' = emit w es \<and> filter is_fs_write es = [])
       \<or> (\<exists>pre ts msg. Finished = Finished \<and> filter is_fs_write pre = []
            \<and> w' = emit (append_titles (argv ! 5) ts (rmSync (argv ! 5) (emit w pre))) [Stdout msg])"
  proof -
    from that obtain pre ts msg where pre: "filter is_fs_write pre = []"
      and w': "w' = emit (append_titles (argv ! 5) ts (rmSync (argv ! 5) (emit w pre))) [Stdout msg]"
      by auto
    let ?post = "RmSync (argv ! 5) # map (\<lambda>t. AppendFileSync (argv ! 5) (t @ LF)) ts @ [Stdout msg]"
    have "trace w' = trace w @ pre @ ?post"
      by (simp add: w' trace_emit trace_rewritten)
    moreover have "filter is_net ?post = []"
      by (induction ts) simp_all
    ultimately show ?thesis using pre by blast
  qed
  show ?thesis
    using aborted finished uncaught_or_finished_v1 [of env argv w _ w']
      uncaught_or_finished_v2 [of env argv w _ w']
    by blast
qed

theorem aborted_run_leaves_output_file_witness:
  "output_of ''out.txt''
     (titles_to_file_js (small_provider\<lparr>item_reply := failing_items\<rparr>) demo_argv demo_world) =
     Some (Uncaught (RequestError ''rate limit''), Some ''old'')
   \<and> output_of ''out.txt''
     (fetch_issue_titles_js (small_provider\<lparr>count_reply := Inl ''bad credentials''\<rparr>) demo_argv demo_world) =
     Some (Uncaught TypeError, Some ''old'')
   \<and> (\<exists>pre post.
         trace (snd (the (titles_to_file_js small_provider demo_argv demo_world))) =
           trace demo_world @ pre @ post
         \<and> filter is_fs_write pre = [] \<and> filter is_net post = [])"
proof -
  have a: "effects_of (titles_to_file_js (small_provider\<lparr>item_reply := failing_items\<rparr>) demo_argv demo_world) =
      Some (Uncaught (RequestError ''rate limit''),
        [Net demo_g CountQuery, Net demo_g (ListForRepo 100 1),
         Net demo_g (ItemQuery ''discussions'' 100 None),
         Net demo_g (ItemQuery ''discussions'' 100 (Some ''c1''))])"
    by code_simp
  have b: "effects_of (fetch_issue_titles_js (small_provider\<lparr>count_reply := Inl ''bad credentials''\<rparr>)
        demo_argv demo_world) = Some (Uncaught TypeError, [Net demo_g CountQuery])"
    by code_simp
  from a obtain w1 where w1: "titles_to_file_js (small_provider\<lparr>item_reply := failing_items\<rparr>)
      demo_argv demo_world = Some (Uncaught (RequestError ''rate limit''), w1)"
    by (auto simp: effects_of_def)
  from b obtain w2 where w2: "fetch_issue_titles_js (small_provider\<lparr>count_reply := Inl ''bad credentials''\<rparr>)
      demo_argv demo_world = Some (Uncaught TypeError, w2)"
    by (auto simp: effects_of_def)
  have c: "map_option fst (titles_to_file_js small_provider demo_argv demo_world) = Some Finished"
    by code_simp
  then obtain w3 where w3: "titles_to_file_js small_provider demo_argv demo_world = Some (Finished, w3)"
    by auto
  from aborted_run_leaves_output_file [of small_provider demo_argv demo_world TypeError w3]
    aborted_run_leaves_output_file
    [of "small_provider\<lparr>item_reply := failing_items\<rparr>" demo_argv demo_world "RequestError ''rate limit''" w1]
    aborted_run_leaves_output_file
    [of "small_provider\<lparr>count_reply := Inl ''bad credentials''\<rparr>" demo_argv demo_world TypeError w2]
  show ?thesis
    using w1 w2 w3 by (simp add: output_of_def demo_world_def)
qed

text \<open>
  Claim C5, as stated: the output file is deleted and recreated at the start of the run and
  each record is appended as it becomes available.  It does not hold.  In the finished run
  below the file is removed after the last request, and the record of the REST page is
  appended only then; in the run whose second discussion request is rejected, the records
  fetched before are never appended and the old file is still there.
\<close>

theorem output_file_rewritten_at_start_counterexample:
  "effects_of (titles_to_file_js small_provider demo_argv demo_world) =
     Some (Finished,
       [Net demo_g CountQuery, Net demo_g (ListForRepo 100 1),
        Net demo_g (ItemQuery ''discussions'' 100 None),
        Net demo_g (ItemQuery ''discussions'' 100 (Some ''c1'')),
        RmSync ''out.txt'', AppendFileSync ''out.txt'' (''1,issue'' @ LF),
        AppendFileSync ''out.txt'' (''7,first'' @ LF),
        AppendFileSync ''out.txt'' (''8,second'' @ LF)])
   \<and> output_of ''out.txt''
       (titles_to_file_js (small_provider\<lparr>item_reply := failing_items\<rparr>) demo_argv demo_world) =
     Some (Uncaught (RequestError ''rate limit''), Some ''old'')"
  by code_simp

text \<open>
  Claim C5, amended.  In a run that finishes, the output file is removed once, after all
  requests have been sent and answered; until then the records are held in memory.  After
  the removal every record that the two fetches returned is appended by a call of its own,
  in the order in which the script joins the two results, and the summary line is printed.
  The file then holds exactly the lines of these records; with no record it has been removed
  and is not created again.
\<close>

theorem output_file_is_rewritten_after_the_fetches:
  "(titles_to_file_js env argv w = Some (Finished, w') \<longrightarrow>
     (\<exists>key s rest w2 disc w3 pre.
        files w (argv ! 4) = Some key \<and> count_reply env = Inr s
      \<and> RESTTitleFetcher_fetch env \<lparr>owner = argv ! 2, repo = argv ! 3, authKey = key\<rparr>
           (issues s + pullRequests s)
           (emit w [Net \<lparr>owner = argv ! 2, repo = argv ! 3, authKey = key\<rparr> CountQuery]) = (Inr rest, w2)
      \<and> GraphQLTitleFetcher_fetch env \<lparr>owner = argv ! 2, repo = argv ! 3, authKey = key\<rparr>
           (discussions s) ''discussions'' w2 = Some (Inr disc, w3)
      \<and> trace w3 = trace w @ pre \<and> filter is_fs_write pre = [] \<and> files w3 = files w
      \<and> trace w' = trace w3
           @ RmSync (argv ! 5) # map (\<lambda>t. AppendFileSync (argv ! 5) (t @ LF)) (rest @ disc)
           @ [Stdout (''Written '' @ String_of (int (length (rest @ disc))) @ '' titles to ''
                @ argv ! 5)]
      \<and> files w' = (files w)(argv ! 5 :=
           if rest @ disc = [] then None else Some (lines_of (rest @ disc)))))
   \<and> (fetch_issue_titles_js env argv w = Some (Finished, w') \<longrightarrow>
     (\<exists>key s disc w2 rest w3 pre.
        files w (argv ! 4) = Some key \<and> count_reply env = Inr s
      \<and> fetchItemTitles env \<lparr>owner = argv ! 2, repo = argv ! 3, authKey = key\<rparr> ''discussions''
           (discussions s)
           (emit w [Net \<lparr>owner = argv ! 2, repo = argv ! 3, authKey = key\<rparr> CountQuery])
           = Some (Inr disc, w2)
      \<and> fetchIssueTitles env \<lparr>owner = argv ! 2, repo = argv ! 3, authKey = key\<rparr>
           (issues s + pullRequests s) w2 = (Inr rest, w3)
      \<and> trace w3 = trace w @ pre \<and> filter is_fs_write pre = [] \<and> files w3 = files w
      \<and> trace w' = trace w3
           @ RmSync (argv ! 5) # map (\<lambda>t. AppendFileSync (argv ! 5) (t @ LF)) (disc @ rest)
           @ [Stdout (''Written '' @ String_of (int (length rest)) @ '' issue/pull request and ''
                @ String_of (int (length disc)) @ '' discussion titles to '' @ argv ! 5)]
      \<and> files w' = (files w)(argv ! 5 :=
           if disc @ rest = [] then None else Some (lines_of (disc @ rest)))))"
proof (intro conjI impI)
  assume fin: "titles_to_file_js env argv w = Some (Finished, w')"
  from titles_to_file_js_finished [OF fin] obtain key s rest w2 disc w3
    where key: "files w (argv ! 4) = Some key" and s: "count_reply env = Inr s"
      and r: "RESTTitleFetcher_fetch env \<lparr>owner = argv ! 2, repo = argv ! 3, authKey = key\<rparr>
           (issues s + pullRequests s)
           (emit w [Net \<lparr>owner = argv ! 2, repo = argv ! 3, authKey = key\<rparr> CountQuery]) = (Inr rest, w2)"
      and d: "GraphQLTitleFetcher_fetch env \<lparr>owner = argv ! 2, repo = argv ! 3, authKey = key\<rparr>
           (discussions s) ''discussions'' w2 = Some (Inr disc, w3)"
      and w': "w' = emit (append_titles (argv ! 5) (rest @ disc) (rmSync (argv ! 5) w3))
           [Stdout (''Written '' @ String_of (int (length (rest @ disc))) @ '' titles to '' @ argv ! 5)]"
    by blast
  let ?g = "\<lparr>owner = argv ! 2, repo = argv ! 3, authKey = key\<rparr>"
  obtain es1 where es1: "w2 = emit (emit w [Net ?g CountQuery]) es1" "filter is_fs_write es1 = []"
    using RESTTitleFetcher_fetch_world [of env ?g "issues s + pullRequests s" "emit w [Net ?g CountQuery]"]
    by (auto simp: r)
  obtain es2 where es2: "w3 = emit w2 es2" "filter is_fs_write es2 = []"
    using cursor_fetch_world [of Stderr format_title env ?g "''discussions''" _ w2 "Inr disc" w3] d
    by (auto simp: GraphQLTitleFetcher_fetch_def)
  have w3: "trace w3 = trace w @ (Net ?g CountQuery # es1 @ es2)"
    "filter is_fs_write (Net ?g CountQuery # es1 @ es2) = []" "files w3 = files w"
    using es1 es2 by (simp_all add: files_emit trace_emit)
  have t: "trace w' = trace w3
           @ RmSync (argv ! 5) # map (\<lambda>t. AppendFileSync (argv ! 5) (t @ LF)) (rest @ disc)
           @ [Stdout (''Written '' @ String_of (int (length (rest @ disc))) @ '' titles to ''
                @ argv ! 5)]"
    by (simp add: w' trace_emit trace_rewritten)
  have f: "files w' = (files w)(argv ! 5 :=
           if rest @ disc = [] then None else Some (lines_of (rest @ disc)))"
    by (simp only: w' files_emit files_rewritten w3(3))
  from key s r d w3 t f
  show "\<exists>key s rest w2 disc w3 pre.
        files w (argv ! 4) = Some key \<and> count_reply env = Inr s
      \<and> RESTTitleFetcher_fetch env \<lparr>owner = argv ! 2, repo = argv ! 3, authKey = key\<rparr>
           (issues s + pullRequests s)
           (emit w [Net \<lparr>owner = argv ! 2, repo = argv ! 3, authKey = key\<rparr> CountQuery]) = (Inr rest, w2)
      \<and> GraphQLTitleFetcher_fetch env \<lparr>owner = argv ! 2, repo = argv ! 3, authKey = key\<rparr>
           (discussions s) ''discussions'' w2 = Some (Inr disc, w3)
      \<and> trace w3 = trace w @ pre \<and> filter is_fs_write pre = [] \<and> files w3 = files w
      \<and> trace w' = trace w3
           @ RmSync (argv ! 5) # map (\<lambda>t. AppendFileSync (argv ! 5) (t @ LF)) (rest @ disc)
           @ [Stdout (''Written '' @ String_of (int (length (rest @ disc))) @ '' titles to ''
                @ argv ! 5)]
      \<and> files w' = (files w)(argv ! 5 :=
           if rest @ disc = [] then None else Some (lines_of (rest @ disc)))"
    by blast
next
  assume fin: "fetch_issue_titles_js env argv w = Some (Finished, w')"
  from fetch_issue_titles_js_finished [OF fin] obtain key s disc w2 rest w3
    where key: "files w (argv ! 4) = Some key" and s: "count_reply env = Inr s"
      and d: "fetchItemTitles env \<lparr>owner = argv ! 2, repo = argv ! 3, authKey = key\<rparr> ''discussions''
           (discussions s)
           (emit w [Net \<lparr>owner = argv ! 2, repo = argv ! 3, authKey = key\<rparr> CountQuery])
           = Some (Inr disc, w2)"
      and r: "fetchIssueTitles env \<lparr>owner = argv ! 2, repo = argv ! 3, authKey = key\<rparr>
           (issues s + pullRequests s) w2 = (Inr rest, w3)"
      and w': "w' = emit (append_titles (argv ! 5) (disc @ rest) (rmSync (argv ! 5) w3))
           [Stdout (''Written '' @ String_of (int (length rest)) @ '' issue/pull request and ''
              @ String_of (int (length disc)) @ '' discussion titles to '' @ argv ! 5)]"
    by blast
  let ?g = "\<lparr>owner = argv ! 2, repo = argv ! 3, authKey = key\<rparr>"
  obtain es1 where es1: "w2 = emit (emit w [Net ?g CountQuery]) es1" "filter is_fs_write es1 = []"
    using cursor_fetch_world [of Stdout format_title env ?g "''discussions''" _
        "emit w [Net ?g CountQuery]" "Inr disc" w2] d
    by (auto simp: fetchItemTitles_def)
  obtain es2 where es2: "w3 = emit w2 es2" "filter is_fs_write es2 = []"
    using fetchIssueTitles_world [of env ?g "issues s + pullRequests s" w2]
    by (auto simp: r)
  have w3: "trace w3 = trace w @ (Net ?g CountQuery # es1 @ es2)"
    "filter is_fs_write (Net ?g CountQuery # es1 @ es2) = []" "files w3 = files w"
    using es1 es2 by (simp_all add: files_emit trace_emit)
  have t: "trace w' = trace w3
           @ RmSync (argv ! 5) # map (\<lambda>t. AppendFileSync (argv ! 5) (t @ LF)) (disc @ rest)
           @ [Stdout (''Written '' @ String_of (int (length rest)) @ '' issue/pull request and ''
                @ String_of (int (length disc)) @ '' discussion titles to '' @ argv ! 5)]"
    by (simp add: w' trace_emit trace_rewritten)
  have f: "files w' = (files w)(argv ! 5 :=
           if disc @ rest = [] then None else Some (lines_of (disc @ rest)))"
    by (simp only: w' files_emit files_rewritten w3(3))
  from key s r d w3 t f
  show "\<exists>key s disc w2 rest w3 pre.
        files w (argv ! 4) = Some key \<and> count_reply env = Inr s
      \<and> fetchItemTitles env \<lparr>owner = argv ! 2, repo = argv ! 3, authKey = key\<rparr> ''discussions''
           (discussions s)
           (emit w [Net \<lparr>owner = argv ! 2, repo = argv ! 3, authKey = key\<rparr> CountQuery])
           = Some (Inr disc, w2)
      \<and> fetchIssueTitles env \<lparr>owner = argv ! 2, repo = argv ! 3, authKey = key\<rparr>
           (issues s + pullRequests s) w2 = (Inr rest, w3)
      \<and> trace w3 = trace w @ pre \<and> filter is_fs_write pre = [] \<and> files w3 = files w
      \<and> trace w' = trace w3
           @ RmSync (argv ! 5) # map (\<lambda>t. AppendFileSync (argv ! 5) (t @ LF)) (disc @ rest)
           @ [Stdout (''Written '' @ String_of (int (length rest)) @ '' issue/pull request and ''
                @ String_of (int (length disc)) @ '' discussion titles to '' @ argv ! 5)]
      \<and> files w' = (files w)(argv ! 5 :=
           if disc @ rest = [] then None else Some (lines_of (disc @ rest)))"
    by blast
qed

theorem output_file_is_rewritten_after_the_fetches_witness:
  "map_option fst (titles_to_file_js small_provider demo_argv demo_world) = Some Finished
   \<and> filter is_fs_write (trace (snd (the (titles_to_file_js small_provider demo_argv demo_world)))) =
       [RmSync ''out.txt'', AppendFileSync ''out.txt'' (''1,issue'' @ LF),
        AppendFileSync ''out.txt'' (''7,first'' @ LF), AppendFileSync ''out.txt'' (''8,second'' @ LF)]
   \<and> files (snd (the (titles_to_file_js small_provider demo_argv demo_world))) ''out.txt'' =
       Some (lines_of [''1,issue'', ''7,first'', ''8,second''])
   \<and> map_option fst (fetch_issue_titles_js small_provider demo_argv demo_world) = Some Finished
   \<and> files (snd (the (fetch_issue_titles_js small_provider demo_argv demo_world))) ''out.txt'' =
       Some (lines_of [''7,first'', ''8,second'', ''1,issue''])"
proof -
  let ?w1 = "emit demo_world [Net demo_g CountQuery]"
  have g: "\<lparr>owner = demo_argv ! 2, repo = demo_argv ! 3, authKey = ''secret''\<rparr> = demo_g"
    by (simp add: demo_argv_def demo_g_def)
  have a: "demo_argv ! 5 = ''out.txt''" "files demo_world (demo_argv ! 4) = Some ''secret''"
    "count_reply small_provider = Inr \<lparr>issues = 1, pullRequests = 0, discussions = 2\<rparr>"
    "filter is_fs_write (trace demo_world) = []"
    by (simp_all add: demo_argv_def demo_world_def small_provider_def)
  have c: "map_option fst (titles_to_file_js small_provider demo_argv demo_world) = Some Finished"
    by code_simp
  then obtain w' where w': "titles_to_file_js small_provider demo_argv demo_world = Some (Finished, w')"
    by auto
  have r: "fst (RESTTitleFetcher_fetch small_provider demo_g 1 ?w1) = Inr [''1,issue'']"
    by code_simp
  have d: "map_option fst (GraphQLTitleFetcher_fetch small_provider demo_g 2 ''discussions''
      (snd (RESTTitleFetcher_fetch small_provider demo_g 1 ?w1))) = Some (Inr [''7,first'', ''8,second''])"
    by code_simp
  have c': "map_option fst (fetch_issue_titles_js small_provider demo_argv demo_world) = Some Finished"
    by code_simp
  then obtain v' where v': "fetch_issue_titles_js small_provider demo_argv demo_world = Some (Finished, v')"
    by auto
  have d': "map_option fst (fetchItemTitles small_provider demo_g ''discussions'' 2 ?w1) =
      Some (Inr [''7,first'', ''8,second''])"
    by code_simp
  have r': "fst (fetchIssueTitles small_provider demo_g 1
      (snd (the (fetchItemTitles small_provider demo_g ''discussions'' 2 ?w1)))) = Inr [''1,issue'']"
    by code_simp
  have A: "filter is_fs_write (trace w') =
       [RmSync ''out.txt'', AppendFileSync ''out.txt'' (''1,issue'' @ LF),
        AppendFileSync ''out.txt'' (''7,first'' @ LF), AppendFileSync ''out.txt'' (''8,second'' @ LF)]
    \<and> files w' ''out.txt'' = Some (lines_of [''1,issue'', ''7,first'', ''8,second''])"
    using output_file_is_rewritten_after_the_fetches
      [of small_provider demo_argv demo_world w', THEN conjunct1, rule_format, OF w'] r d
    by (auto simp: a g)
  have B: "files v' ''out.txt'' = Some (lines_of [''7,first'', ''8,second'', ''1,issue''])"
    using output_file_is_rewritten_after_the_fetches
      [of small_provider demo_argv demo_world v', THEN conjunct2, rule_format, OF v'] r' d'
    by (auto simp: a g)
  from A B c c' w' v' show ?thesis by simp
qed

text \<open>
  Claim C1, as stated: in the final output every issue or pull-request record precedes every
  discussion record.  It does not hold for \<^verbatim>\<open>fetch-issue-titles.js\<close>: there the discussions are
  stored under the first key of \<^verbatim>\<open>titles\<close>, and the file lists them before the issue.
\<close>

theorem issues_precede_discussions_counterexample:
  "output_of ''out.txt'' (fetch_issue_titles_js small_provider demo_argv demo_world) =
     Some (Finished, Some (''7,first'' @ LF @ ''8,second'' @ LF @ ''1,issue'' @ LF))"
  by code_simp

text \<open>
  Claim C1, amended.  When both fetches complete, the class-based script hands the result of
  the paged fetch followed by the result of the discussion fetch to the output, so that every
  issue or pull-request record precedes every discussion record; \<^verbatim>\<open>fetch-issue-titles.js\<close>
  fetches the discussions first and writes the discussion records before the issue and
  pull-request records.
\<close>

theorem output_order_of_the_scripts:
  assumes "6 \<le> length argv" and "files w (argv ! 4) = Some key" and "count_reply env = Inr s"
    and "g = \<lparr>owner = argv ! 2, repo = argv ! 3, authKey = key\<rparr>"
  shows "(RESTTitleFetcher_fetch env g (issues s + pullRequests s) (emit w [Net g CountQuery])
            = (Inr rest, w2)
          \<and> GraphQLTitleFetcher_fetch env g (discussions s) ''discussions'' w2 = Some (Inr disc, w3)
          \<longrightarrow> (\<exists>w'. titles_to_file_js env argv w = Some (Finished, w')
                \<and> filter is_fs_write (trace w') = filter is_fs_write (trace w)
                    @ RmSync (argv ! 5) # map (\<lambda>t. AppendFileSync (argv ! 5) (t @ LF)) (rest @ disc)
                \<and> files w' = (files w)(argv ! 5 :=
                      if rest @ disc = [] then None else Some (lines_of (rest @ disc)))))
       \<and> (fetchItemTitles env g ''discussions'' (discussions s) (emit w [Net g CountQuery])
            = Some (Inr disc', v2)
          \<and> fetchIssueTitles env g (issues s + pullRequests s) v2 = (Inr rest', v3)
          \<longrightarrow> (\<exists>w'. fetch_issue_titles_js env argv w = Some (Finished, w')
                \<and> filter is_fs_write (trace w') = filter is_fs_write (trace w)
                    @ RmSync (argv ! 5) # map (\<lambda>t. AppendFileSync (argv ! 5) (t @ LF)) (disc' @ rest')
                \<and> files w' = (files w)(argv ! 5 :=
                      if disc' @ rest' = [] then None else Some (lines_of (disc' @ rest')))))"
proof (intro conjI impI)
  assume "RESTTitleFetcher_fetch env g (issues s + pullRequests s) (emit w [Net g CountQuery])
            = (Inr rest, w2)
          \<and> GraphQLTitleFetcher_fetch env g (discussions s) ''discussions'' w2 = Some (Inr disc, w3)"
  then have r: "RESTTitleFetcher_fetch env g (issues s + pullRequests s) (emit w [Net g CountQuery])
            = (Inr rest, w2)"
    and d: "GraphQLTitleFetcher_fetch env g (discussions s) ''discussions'' w2 = Some (Inr disc, w3)"
    by simp_all
  obtain es1 where es1: "w2 = emit (emit w [Net g CountQuery]) es1" "filter is_fs_write es1 = []"
    using RESTTitleFetcher_fetch_world [of env g "issues s + pullRequests s" "emit w [Net g CountQuery]"]
    by (auto simp: r)
  obtain es2 where es2: "w3 = emit w2 es2" "filter is_fs_write es2 = []"
    using cursor_fetch_world [of Stderr format_title env g "''discussions''" _ w2 "Inr disc" w3] d
    by (auto simp: GraphQLTitleFetcher_fetch_def)
  have w3: "files w3 = files w" "filter is_fs_write (trace w3) = filter is_fs_write (trace w)"
    using es1 es2 by (simp_all add: files_emit trace_emit)
  show "\<exists>w'. titles_to_file_js env argv w = Some (Finished, w')
                \<and> filter is_fs_write (trace w') = filter is_fs_write (trace w)
                    @ RmSync (argv ! 5) # map (\<lambda>t. AppendFileSync (argv ! 5) (t @ LF)) (rest @ disc)
                \<and> files w' = (files w)(argv ! 5 :=
                      if rest @ disc = [] then None else Some (lines_of (rest @ disc)))"
    using r d w3
    by (simp add: titles_to_file_js_run [OF assms] files_emit trace_emit files_rewritten
        trace_rewritten comp_def)
next
  assume "fetchItemTitles env g ''discussions'' (discussions s) (emit w [Net g CountQuery])
            = Some (Inr disc', v2)
          \<and> fetchIssueTitles env g (issues s + pullRequests s) v2 = (Inr rest', v3)"
  then have d: "fetchItemTitles env g ''discussions'' (discussions s) (emit w [Net g CountQuery])
            = Some (Inr disc', v2)"
    and r: "fetchIssueTitles env g (issues s + pullRequests s) v2 = (Inr rest', v3)"
    by simp_all
  obtain es1 where es1: "v2 = emit (emit w [Net g CountQuery]) es1" "filter is_fs_write es1 = []"
    using cursor_fetch_world [of Stdout format_title env g "''discussions''" _
        "emit w [Net g CountQuery]" "Inr disc'" v2] d
    by (auto simp: fetchItemTitles_def)
  obtain es2 where es2: "v3 = emit v2 es2" "filter is_fs_write es2 = []"
    using fetchIssueTitles_world [of env g "issues s + pullRequests s" v2]
    by (auto simp: r)
  have v3: "files v3 = files w" "filter is_fs_write (trace v3) = filter is_fs_write (trace w)"
    using es1 es2 by (simp_all add: files_emit trace_emit)
  show "\<exists>w'. fetch_issue_titles_js env argv w = Some (Finished, w')
                \<and> filter is_fs_write (trace w') = filter is_fs_write (trace w)
                    @ RmSync (argv ! 5) # map (\<lambda>t. AppendFileSync (argv ! 5) (t @ LF)) (disc' @ rest')
                \<and> files w' = (files w)(argv ! 5 :=
                      if disc' @ rest' = [] then None else Some (lines_of (disc' @ rest')))"
    using r d v3
    by (simp add: fetch_issue_titles_js_run [OF assms] files_emit trace_emit files_rewritten
        trace_rewritten comp_def)
qed

theorem output_order_of_the_scripts_witness:
  "length demo_argv = 6
   \<and> files demo_world (demo_argv ! 4) = Some ''secret''
   \<and> output_of ''out.txt'' (titles_to_file_js small_provider demo_argv demo_world) =
       Some (Finished, Some (lines_of [''1,issue'', ''7,first'', ''8,second'']))
   \<and> output_of ''out.txt'' (fetch_issue_titles_js small_provider demo_argv demo_world) =
       Some (Finished, Some (lines_of [''7,first'', ''8,second'', ''1,issue'']))"
proof -
  let ?w1 = "emit demo_world [Net demo_g CountQuery]"
  let ?s = "\<lparr>issues = 1, pullRequests = 0, discussions = 2\<rparr>"
  have h: "6 \<le> length demo_argv" "files demo_world (demo_argv ! 4) = Some ''secret''"
    "count_reply small_provider = Inr ?s"
    "demo_g = \<lparr>owner = demo_argv ! 2, repo = demo_argv ! 3, authKey = ''secret''\<rparr>"
    by (simp_all add: demo_argv_def demo_world_def small_provider_def demo_g_def)
  have r: "fst (RESTTitleFetcher_fetch small_provider demo_g 1 ?w1) = Inr [''1,issue'']"
    by code_simp
  have d: "map_option fst (GraphQLTitleFetcher_fetch small_provider demo_g 2 ''discussions''
      (snd (RESTTitleFetcher_fetch small_provider demo_g 1 ?w1))) = Some (Inr [''7,first'', ''8,second''])"
    by code_simp
  have d': "map_option fst (fetchItemTitles small_provider demo_g ''discussions'' 2 ?w1) =
      Some (Inr [''7,first'', ''8,second''])"
    by code_simp
  have r': "fst (fetchIssueTitles small_provider demo_g 1
      (snd (the (fetchItemTitles small_provider demo_g ''discussions'' 2 ?w1)))) = Inr [''1,issue'']"
    by code_simp
  from r obtain w2 where w2: "RESTTitleFetcher_fetch small_provider demo_g 1 ?w1 = (Inr [''1,issue''], w2)"
    by (cases "RESTTitleFetcher_fetch small_provider demo_g 1 ?w1") simp
  from d w2 obtain w3 where w3: "GraphQLTitleFetcher_fetch small_provider demo_g 2 ''discussions'' w2 =
      Some (Inr [''7,first'', ''8,second''], w3)"
    by auto
  from d' obtain v2 where v2: "fetchItemTitles small_provider demo_g ''discussions'' 2 ?w1 =
      Some (Inr [''7,first'', ''8,second''], v2)"
    by auto
  from r' v2 obtain v3 where v3: "fetchIssueTitles small_provider demo_g 1 v2 = (Inr [''1,issue''], v3)"
    by (cases "fetchIssueTitles small_provider demo_g 1 v2") simp
  from output_order_of_the_scripts [OF h, of "[''1,issue'']" w2 "[''7,first'', ''8,second'']" w3
      "[''7,first'', ''8,second'']" v2 "[''1,issue'']" v3]
  show ?thesis
    using h(2) w2 w3 v2 v3
    by (auto simp: output_of_def demo_argv_def)
qed

end
